theory Spec2Isabelle
  imports Main "HOL-Library.Char_ord" "HOL-Library.List_Lexorder"
    "HOL-Library.Product_Lexorder" "HOL-Library.Extended_Nat" "HOL-Library.AList"
begin

section \<open>Errors, paths and walk nodes\<close>

text \<open>
  Exceptions of the Python code are values. The constructors are the exception classes the
  repository raises or catches (\<open>fs.errors\<close>, the builtins, and \<open>CreatedDirectory\<close> of
  \<open>multifs.py\<close>); \<open>OperationFailedError\<close> carries the operation name and the message.
\<close>

datatype error =
    OSError
  | ResourceNotFoundError
  | ParentDirectoryMissingError
  | ResourceInvalidError
  | OperationFailedError string string
  | DestinationExistsError
  | UnsupportedError
  | RemoteConnectionError
  | CreatedDirectory
  | ValueError string
  | AttributeError string
  | Exception string

text \<open>
  Paths are byte strings; Python compares them lexicographically by character code, which is
  the order of \<open>List_Lexorder\<close> over \<open>Char_ord\<close>.

  \<open>dirname\<close> is \<open>os.path.dirname\<close> (posixpath): everything up to and including the last
  slash, with trailing slashes stripped unless the head consists of slashes only.
\<close>

definition dirname :: "string \<Rightarrow> string" where
  "dirname p =
     (let head = rev (dropWhile (\<lambda>c. c \<noteq> CHR ''/'') (rev p)) in
      if head \<noteq> [] \<and> head \<noteq> replicate (length head) (CHR ''/'')
      then rev (dropWhile (\<lambda>c. c = CHR ''/'') (rev head))
      else head)"

text \<open>\<open>WalkNode = namedtuple('WalkNode', ('path', 'isdir', 'size'))\<close> of \<open>utils.py\<close>.\<close>

record WalkNode =
  path :: string
  isdir :: bool
  size_bytes :: int

section \<open>The diff of two file listings (\<open>sync.py\<close>)\<close>

text \<open>
  An action of the diff is a pair \<open>(action_func, path)\<close>. The three action functions
  \<open>upload_file\<close>, \<open>delete_file\<close> and \<open>skip_file\<close> are compared by identity only, so the
  first component is a tag.
\<close>

datatype action = Upload | Delete | Skip

type_synonym sync_action = "action \<times> string"

text \<open>\<open>next(iterator, None)\<close> on a finite iterator: the next item, if any, and the rest.\<close>

definition next_node :: "'a list \<Rightarrow> 'a option \<times> 'a list" where
  "next_node it = (case it of [] \<Rightarrow> (None, []) | x # rest \<Rightarrow> (Some x, rest))"

text \<open>
  A generator's outcome is the list of the items it yields and the exception that ends it,
  if one does. \<open>yield\<close> puts one item in front of the outcome of the rest of the run.
\<close>

definition yield :: "'a \<Rightarrow> 'a list \<times> error option \<Rightarrow> 'a list \<times> error option" where
  "yield a rest = (a # fst rest, snd rest)"

text \<open>
  The \<open>while sfile or tfile\<close> loop of \<open>_get_sync_actions\<close>. A \<open>WalkNode\<close> is a non-empty
  tuple, hence true; the loop ends when both are \<open>None\<close>. The branches are in the order of
  the source, the last one being its \<open>raise ValueError\<close>.
\<close>

function sync_loop ::
  "WalkNode option \<Rightarrow> WalkNode list \<Rightarrow> WalkNode option \<Rightarrow> WalkNode list
     \<Rightarrow> sync_action list \<times> error option" where
  "sync_loop None source_files None target_files = ([], None)"
| "sync_loop None source_files (Some t) target_files =
     yield (Delete, path t)
       (sync_loop None source_files (fst (next_node target_files)) (snd (next_node target_files)))"
| "sync_loop (Some s) source_files None target_files =
     yield (Upload, path s)
       (sync_loop (fst (next_node source_files)) (snd (next_node source_files)) None target_files)"
| "sync_loop (Some s) source_files (Some t) target_files =
     (if path s = path t then
        yield (if size_bytes s = size_bytes t then (Skip, path s) else (Upload, path s))
          (sync_loop (fst (next_node source_files)) (snd (next_node source_files))
             (fst (next_node target_files)) (snd (next_node target_files)))
      else if path s > path t then
        yield (Delete, path t)
          (sync_loop (Some s) source_files
             (fst (next_node target_files)) (snd (next_node target_files)))
      else if path t > path s then
        yield (Upload, path s)
          (sync_loop (fst (next_node source_files)) (snd (next_node source_files))
             (Some t) target_files)
      else ([], Some (ValueError ''This should be logically impossible.'')))"
  by pat_completeness auto
termination
  by (relation "measure (\<lambda>(sfile, source_files, tfile, target_files).
        length source_files + length target_files
        + (case sfile of None \<Rightarrow> 0 | Some _ \<Rightarrow> 1) + (case tfile of None \<Rightarrow> 0 | Some _ \<Rightarrow> 1))")
     (auto simp: next_node_def split: list.splits)

definition get_sync_actions ::
  "WalkNode list \<Rightarrow> WalkNode list \<Rightarrow> sync_action list \<times> error option" where
  "get_sync_actions source_files target_files =
     sync_loop (fst (next_node source_files)) (snd (next_node source_files))
       (fst (next_node target_files)) (snd (next_node target_files))"

text \<open>
  The action stream \<open>sync_files\<close> consumes: the diff, and without \<open>delete_missing\<close> the
  generator expression that drops every action whose function is \<open>delete_file\<close>.
\<close>

definition sync_files_actions ::
  "bool \<Rightarrow> WalkNode list \<Rightarrow> WalkNode list \<Rightarrow> sync_action list \<times> error option" where
  "sync_files_actions delete_missing source_files target_files =
     (let actions = get_sync_actions source_files target_files in
      if \<not> delete_missing then (filter (\<lambda>a. fst a \<noteq> Delete) (fst actions), snd actions)
      else actions)"

section \<open>The filesystem the code runs against\<close>

text \<open>
  The repository works on filesystem objects of the third-party \<open>fs\<close> library, whose code
  is not part of it. The model below is the reference filesystem the repository's functions
  are run against where a claim depends on what a filesystem stores: a finite table from
  normalised absolute paths to entries, the root \<open>/\<close> being a directory that always exists.
  Failure modes a real backend adds (connection errors, races) are covered separately by the
  operation records \<open>sync_env\<close> and \<open>backend\<close> further down, whose fields are arbitrary
  functions.
\<close>

datatype entry = FileEntry string | DirEntry

type_synonym memfs = "(string \<times> entry) list"

definition mem_exists :: "memfs \<Rightarrow> string \<Rightarrow> bool" where
  "mem_exists fs p = (p = ''/'' \<or> map_of fs p \<noteq> None)"

definition mem_isdir :: "memfs \<Rightarrow> string \<Rightarrow> bool" where
  "mem_isdir fs p = (p = ''/'' \<or> map_of fs p = Some DirEntry)"

definition mem_isfile :: "memfs \<Rightarrow> string \<Rightarrow> bool" where
  "mem_isfile fs p = (case map_of fs p of Some (FileEntry c) \<Rightarrow> True | _ \<Rightarrow> False)"

text \<open>\<open>ilistdirinfo(path, full=True)\<close>: the entries directly below \<open>d\<close>, with full paths, in
  the order the backend holds them.\<close>

definition mem_ilistdirinfo :: "memfs \<Rightarrow> string \<Rightarrow> (string \<times> entry) list" where
  "mem_ilistdirinfo fs d = filter (\<lambda>(p, e). dirname p = d \<and> p \<noteq> d) fs"

text \<open>\<open>info.get('size', 0)\<close>: a file's info has its size, a directory's has none.\<close>

definition info_size :: "entry \<Rightarrow> int" where
  "info_size e = (case e of FileEntry c \<Rightarrow> int (length c) | DirEntry \<Rightarrow> 0)"

definition mem_getcontents :: "memfs \<Rightarrow> string \<Rightarrow> error + string" where
  "mem_getcontents fs p =
     (case map_of fs p of
        Some (FileEntry c) \<Rightarrow> Inr c
      | Some DirEntry \<Rightarrow> Inl ResourceInvalidError
      | None \<Rightarrow> if p = ''/'' then Inl ResourceInvalidError else Inl ResourceNotFoundError)"

text \<open>
  Writing a whole file. Backends differ in the error they raise when the parent directory
  does not exist (\<open>OSFS\<close> converts the operating system's error into
  \<open>ResourceNotFoundError\<close>, others raise \<open>ParentDirectoryMissingError\<close>); it is the
  parameter \<open>missing\<close>.
\<close>

definition mem_setcontents :: "error \<Rightarrow> memfs \<Rightarrow> string \<Rightarrow> string \<Rightarrow> error + memfs" where
  "mem_setcontents missing fs p data =
     (if mem_isdir fs p then Inl ResourceInvalidError
      else if \<not> mem_isdir fs (dirname p) then Inl missing
      else Inr (AList.update p (FileEntry data) fs))"

definition mem_remove :: "memfs \<Rightarrow> string \<Rightarrow> error + memfs" where
  "mem_remove fs p =
     (case map_of fs p of
        Some (FileEntry c) \<Rightarrow> Inr (AList.delete p fs)
      | Some DirEntry \<Rightarrow> Inl ResourceInvalidError
      | None \<Rightarrow> if p = ''/'' then Inl ResourceInvalidError else Inl ResourceNotFoundError)"

lemma dirname_prefix: "\<exists>r. p = dirname p @ r"
proof -
  define h where "h = rev (dropWhile (\<lambda>c. c \<noteq> CHR ''/'') (rev p))"
  have whole: "p = h @ rev (takeWhile (\<lambda>c. c \<noteq> CHR ''/'') (rev p))"
    unfolding h_def by (metis rev_append rev_rev_ident takeWhile_dropWhile_id)
  have stripped: "h = rev (dropWhile (\<lambda>c. c = CHR ''/'') (rev h))
                     @ rev (takeWhile (\<lambda>c. c = CHR ''/'') (rev h))"
    by (metis rev_append rev_rev_ident takeWhile_dropWhile_id)
  show ?thesis
  proof (cases "h \<noteq> [] \<and> h \<noteq> replicate (length h) (CHR ''/'')")
    case True
    then have "dirname p = rev (dropWhile (\<lambda>c. c = CHR ''/'') (rev h))"
      by (simp add: dirname_def h_def Let_def)
    with whole stripped show ?thesis by (metis append.assoc)
  next
    case False
    then have "dirname p = h" by (auto simp add: dirname_def h_def Let_def)
    with whole show ?thesis by metis
  qed
qed

lemma dirname_shorter:
  assumes "dirname p \<noteq> p"
  shows "length (dirname p) < length p"
proof -
  obtain r where r: "p = dirname p @ r" using dirname_prefix by blast
  with assms have "r \<noteq> []" by auto
  then have "length (dirname p) < length (dirname p @ r)" by simp
  with r show ?thesis by metis
qed

text \<open>The directories \<open>makedir(d, recursive=True)\<close> makes sure of: \<open>d\<close> and every directory
  above it, the root left out.\<close>

function ancestors :: "string \<Rightarrow> string list" where
  "ancestors d = (if dirname d = d then [] else d # ancestors (dirname d))"
  by pat_completeness auto
termination
  by (relation "measure length") (auto simp: dirname_shorter)

declare ancestors.simps [simp del]

definition mem_makedir :: "memfs \<Rightarrow> string \<Rightarrow> bool \<Rightarrow> bool \<Rightarrow> error + memfs" where
  "mem_makedir fs d recursive allow_recreate =
     (if mem_isfile fs d then Inl ResourceInvalidError
      else if mem_isdir fs d then (if allow_recreate then Inr fs else Inl DestinationExistsError)
      else if recursive then
        (if list_ex (mem_isfile fs) (ancestors d) then Inl ResourceInvalidError
         else Inr (fold (\<lambda>q fs'. AList.update q DirEntry fs') (ancestors d) fs))
      else if mem_isdir fs (dirname d) then Inr (AList.update d DirEntry fs)
      else Inl ParentDirectoryMissingError)"

definition write_mode :: "string \<Rightarrow> bool" where
  "write_mode mode = (CHR ''w'' \<in> set mode \<or> CHR ''+'' \<in> set mode \<or> CHR ''a'' \<in> set mode)"

text \<open>
  \<open>open(path, mode)\<close>: the outcome is the contents the returned file object starts with.
  A mode with \<open>w\<close> creates or truncates the file, one with \<open>a\<close> creates it when it is
  missing, any other mode needs the file to exist. \<open>mem_write\<close> is \<open>write(data)\<close> followed
  by \<open>close()\<close> on a file object opened for writing at that path.
\<close>

definition mem_open :: "error \<Rightarrow> memfs \<Rightarrow> string \<Rightarrow> string \<Rightarrow> (error + string) \<times> memfs" where
  "mem_open missing fs p mode =
     (if CHR ''w'' \<in> set mode \<or> (CHR ''a'' \<in> set mode \<and> \<not> mem_isfile fs p) then
        (case mem_setcontents missing fs p [] of
           Inl e \<Rightarrow> (Inl e, fs)
         | Inr fs' \<Rightarrow> (Inr [], fs'))
      else (mem_getcontents fs p, fs))"

definition mem_write :: "memfs \<Rightarrow> string \<Rightarrow> string \<Rightarrow> error + memfs" where
  "mem_write fs p data =
     (case map_of fs p of
        Some (FileEntry c) \<Rightarrow> Inr (AList.update p (FileEntry (c @ data)) fs)
      | _ \<Rightarrow> Inl ResourceNotFoundError)"

section \<open>Walking a filesystem (\<open>utils.py\<close>)\<close>

text \<open>
  The first half of \<open>walk_fs\<close>: one \<open>WalkNode\<close> per entry of the directory, then
  \<open>nodes.sort()\<close>, which orders the tuples \<open>(path, isdir, size)\<close>.
\<close>

definition list_nodes :: "memfs \<Rightarrow> string \<Rightarrow> bool \<Rightarrow> WalkNode list" where
  "list_nodes fs dirpath sort_flag =
     (let nodes = map (\<lambda>(p, info). \<lparr>path = p, isdir = mem_isdir fs p, size_bytes = info_size info\<rparr>)
                    (mem_ilistdirinfo fs dirpath)
      in if sort_flag then sort_key (\<lambda>n. (path n, isdir n, size_bytes n)) nodes else nodes)"

lemma list_nodes_path:
  assumes "node \<in> set (list_nodes fs dirpath sort_flag)"
  shows "path node \<in> fst ` set fs \<and> length dirpath < length (path node)"
proof -
  from assms obtain p e
    where "(p, e) \<in> set fs" "dirname p = dirpath" "p \<noteq> dirpath" "path node = p"
    by (auto simp: list_nodes_def mem_ilistdirinfo_def Let_def split: if_splits)
  then show ?thesis using dirname_shorter[of p] by force
qed

text \<open>
  The second half: every node is yielded, and a directory is followed at once by the walk
  of its own entries while \<open>max_depth > 0\<close>. \<open>max_depth\<close> defaults to \<open>float('inf')\<close>.
\<close>

function walk_fs :: "memfs \<Rightarrow> string \<Rightarrow> bool \<Rightarrow> enat \<Rightarrow> WalkNode list" where
  "walk_fs fs dirpath sort_flag max_depth =
     concat (map (\<lambda>node.
        node # (if isdir node then
                  (if max_depth > 0 then walk_fs fs (path node) sort_flag (max_depth - 1) else [])
                else []))
       (list_nodes fs dirpath sort_flag))"
  by pat_completeness auto
termination
proof (relation "measure (\<lambda>(fs, dirpath, sort_flag, max_depth).
          Suc (sum_list (map (\<lambda>x. length (fst x)) fs)) - length dirpath)", goal_cases)
  case 1
  then show ?case by simp
next
  case (2 fs dirpath sort_flag max_depth node)
  from list_nodes_path[OF 2(1)] obtain x where x: "x \<in> set fs" "fst x = path node"
    and lt: "length dirpath < length (path node)" by auto
  have "length (fst x) \<le> sum_list (map (\<lambda>x. length (fst x)) fs)"
    using x(1) by (simp add: member_le_sum_list)
  with x lt show ?case by simp
qed

declare walk_fs.simps [simp del]

definition walk_files :: "memfs \<Rightarrow> string \<Rightarrow> bool \<Rightarrow> enat \<Rightarrow> WalkNode list" where
  "walk_files fs dirpath sort_flag max_depth =
     filter (\<lambda>node. \<not> isdir node) (walk_fs fs dirpath sort_flag max_depth)"

text \<open>
  \<open>walk_fs\<close> and \<open>walk_files\<close> are generators: nothing is listed before the first \<open>next\<close>,
  and a directory is listed when the walk enters it, on the filesystem as it is then. The
  state of a suspended \<open>walk_fs\<close> is the stack of its nested generators, innermost first:
  \<^item> \<open>Todo dirpath max_depth\<close> is a generator that has not run yet;
  \<^item> \<open>Nodes nodes max_depth\<close> is a generator inside its \<open>for node in nodes\<close> loop, with the
    nodes still to come.
  \<open>descend\<close> is what follows the \<open>yield node\<close>: the generator of the children, if the node
  is a directory and \<open>max_depth > 0\<close>. \<open>walk_fs_next\<close> is \<open>next\<close> on the generator, \<open>None\<close>
  when it is exhausted.
\<close>

datatype frame = Todo string enat | Nodes "WalkNode list" enat

definition descend :: "WalkNode \<Rightarrow> enat \<Rightarrow> frame list" where
  "descend node max_depth =
     (if isdir node then (if max_depth > 0 then [Todo (path node) (max_depth - 1)] else [])
      else [])"

fun walk_fs_next :: "memfs \<Rightarrow> bool \<Rightarrow> frame list \<Rightarrow> WalkNode option \<times> frame list" where
  "walk_fs_next fs sort_flag [] = (None, [])"
| "walk_fs_next fs sort_flag (Todo dirpath max_depth # outer) =
     (case list_nodes fs dirpath sort_flag of
        [] \<Rightarrow> walk_fs_next fs sort_flag outer
      | node # nodes \<Rightarrow> (Some node, descend node max_depth @ Nodes nodes max_depth # outer))"
| "walk_fs_next fs sort_flag (Nodes [] max_depth # outer) = walk_fs_next fs sort_flag outer"
| "walk_fs_next fs sort_flag (Nodes (node # nodes) max_depth # outer) =
     (Some node, descend node max_depth @ Nodes nodes max_depth # outer)"

text \<open>\<open>pending fs sort_flag gen\<close>: the nodes a suspended generator still yields if the
  filesystem stays \<open>fs\<close>. Each \<open>next\<close> takes the first of them.\<close>

fun pending_frame :: "memfs \<Rightarrow> bool \<Rightarrow> frame \<Rightarrow> WalkNode list" where
  "pending_frame fs sort_flag (Todo dirpath max_depth) = walk_fs fs dirpath sort_flag max_depth"
| "pending_frame fs sort_flag (Nodes nodes max_depth) =
     concat (map (\<lambda>node.
        node # (if isdir node then
                  (if max_depth > 0 then walk_fs fs (path node) sort_flag (max_depth - 1) else [])
                else []))
       nodes)"

definition pending :: "memfs \<Rightarrow> bool \<Rightarrow> frame list \<Rightarrow> WalkNode list" where
  "pending fs sort_flag gen = concat (map (pending_frame fs sort_flag) gen)"

lemma pending_descend:
  "pending fs sort_flag (descend node max_depth @ gen) =
     (if isdir node then
        (if max_depth > 0 then walk_fs fs (path node) sort_flag (max_depth - 1) else [])
      else []) @ pending fs sort_flag gen"
  by (simp add: pending_def descend_def)

lemma walk_fs_next_pending:
  "walk_fs_next fs sort_flag gen = (r, gen') \<Longrightarrow>
     (case r of None \<Rightarrow> pending fs sort_flag gen = [] \<and> gen' = []
      | Some node \<Rightarrow> pending fs sort_flag gen = node # pending fs sort_flag gen')"
proof (induction fs sort_flag gen arbitrary: r gen' rule: walk_fs_next.induct)
  case (1 fs sort_flag)
  then show ?case by (simp add: pending_def)
next
  case (2 fs sort_flag dirpath max_depth outer)
  show ?case
  proof (cases "list_nodes fs dirpath sort_flag")
    case Nil
    with 2 have "case r of None \<Rightarrow> pending fs sort_flag outer = [] \<and> gen' = []
      | Some node \<Rightarrow> pending fs sort_flag outer = node # pending fs sort_flag gen'"
      by simp
    moreover have "pending fs sort_flag (Todo dirpath max_depth # outer) = pending fs sort_flag outer"
      using Nil by (simp add: pending_def walk_fs.simps[of fs dirpath])
    ultimately show ?thesis by (cases r) simp_all
  next
    case (Cons node nodes)
    with 2(2) have r: "r = Some node" and g: "gen' = descend node max_depth @ Nodes nodes max_depth # outer"
      by simp_all
    have "pending fs sort_flag (Todo dirpath max_depth # outer)
            = node # pending fs sort_flag gen'"
      unfolding g pending_descend using Cons
      by (simp add: pending_def walk_fs.simps[of fs dirpath])
    with r show ?thesis by simp
  qed
next
  case (3 fs sort_flag max_depth outer)
  then show ?case by (cases r) (simp_all add: pending_def)
next
  case (4 fs sort_flag node nodes max_depth outer)
  then have r: "r = Some node" and g: "gen' = descend node max_depth @ Nodes nodes max_depth # outer"
    by simp_all
  have "pending fs sort_flag (Nodes (node # nodes) max_depth # outer)
          = node # pending fs sort_flag gen'"
    unfolding g pending_descend by (simp add: pending_def)
  with r show ?case by simp
qed

text \<open>\<open>next\<close> on the generator \<open>walk_files\<close>: the nodes of the inner \<open>walk_fs\<close> generator are
  taken until one is not a directory.\<close>

function walk_files_next :: "memfs \<Rightarrow> bool \<Rightarrow> frame list \<Rightarrow> WalkNode option \<times> frame list" where
  "walk_files_next fs sort_flag gen =
     (case walk_fs_next fs sort_flag gen of
        (None, gen') \<Rightarrow> (None, gen')
      | (Some node, gen') \<Rightarrow>
          if \<not> isdir node then (Some node, gen') else walk_files_next fs sort_flag gen')"
  by pat_completeness auto
termination
proof (relation "measure (\<lambda>(fs, sort_flag, gen). length (pending fs sort_flag gen))", goal_cases)
  case 1
  then show ?case by simp
next
  case (2 fs sort_flag gen x1 gen' node)
  then have "walk_fs_next fs sort_flag gen = (Some node, gen')" by simp
  from walk_fs_next_pending[OF this] show ?case by simp
qed

declare walk_files_next.simps [simp del]

section \<open>Applying the diff (\<open>sync.py\<close>, \<open>utils.copy_file\<close>)\<close>

text \<open>
  The sync engine works on two arbitrary filesystems. What these do is a record of
  operations on a state \<open>'w\<close> that holds both of them, so that every failure pattern of a
  backend is an instance:
  \<^item> \<open>fs_copyfile\<close> is \<open>fs.utils.copyfile(source_fs, source_path, target_fs, target_path)\<close>;
  \<^item> \<open>target_makedir\<close> is \<open>target_fs.makedir(path, recursive=True, allow_recreate=True)\<close>;
  \<^item> \<open>target_remove\<close> is \<open>target_fs.remove(path)\<close>;
  \<^item> \<open>source_exists\<close>, \<open>source_hassyspath\<close>, \<open>source_getsyspath\<close> are the queries on
    \<open>source_fs\<close>, \<open>os_path_islink\<close> and \<open>os_path_exists\<close> those of \<open>os.path\<close>.
  \<open>None\<close> is a normal return, \<open>Some e\<close> the exception raised.
\<close>

record 'w sync_env =
  fs_copyfile :: "string \<Rightarrow> string \<Rightarrow> 'w \<Rightarrow> error option \<times> 'w"
  target_makedir :: "string \<Rightarrow> 'w \<Rightarrow> error option \<times> 'w"
  target_remove :: "string \<Rightarrow> 'w \<Rightarrow> error option \<times> 'w"
  source_exists :: "string \<Rightarrow> 'w \<Rightarrow> bool"
  source_hassyspath :: "string \<Rightarrow> 'w \<Rightarrow> bool"
  source_getsyspath :: "string \<Rightarrow> 'w \<Rightarrow> string"
  os_path_islink :: "string \<Rightarrow> 'w \<Rightarrow> bool"
  os_path_exists :: "string \<Rightarrow> 'w \<Rightarrow> bool"

text \<open>\<open>copy_file\<close> of \<open>utils.py\<close>; \<open>overwrite\<close> and \<open>chunk_size\<close> are handed on to the
  library unchanged and left out.\<close>

definition copy_file ::
  "'w sync_env \<Rightarrow> string \<Rightarrow> string \<Rightarrow> bool \<Rightarrow> 'w \<Rightarrow> error option \<times> 'w" where
  "copy_file env source_path target_path create_directory w =
     (case fs_copyfile env source_path target_path w of
        (None, w1) \<Rightarrow> (None, w1)
      | (Some e, w1) \<Rightarrow>
          if e = ParentDirectoryMissingError then
            (if create_directory then
               (case target_makedir env (dirname target_path) w1 of
                  (Some e2, w2) \<Rightarrow> (Some e2, w2)
                | (None, w2) \<Rightarrow> fs_copyfile env source_path target_path w2)
             else (Some e, w1))
          else (Some e, w1))"

text \<open>
  The state of a run is the state of the two filesystems and, next to it, the calls the
  action functions of \<open>sync.py\<close> have made so far, in order. The trace is not a variable of
  the program; it is what the statements about retries count.
\<close>

datatype call =
    Call_copy_file string
  | Call_makedir string
  | Call_remove string
  | Call_open string string
  | Call_setcontents string string

record 'w run_state =
  world :: 'w
  trace :: "call list"

definition logged ::
  "call \<Rightarrow> ('w \<Rightarrow> error option \<times> 'w) \<Rightarrow> 'w run_state \<Rightarrow> error option \<times> 'w run_state" where
  "logged c f st = (case f (world st) of (r, w') \<Rightarrow> (r, \<lparr>world = w', trace = trace st @ [c]\<rparr>))"

text \<open>The test of the \<open>Bad symlink\<close> branch of \<open>upload_file\<close>.\<close>

definition bad_symlink :: "'w sync_env \<Rightarrow> string \<Rightarrow> 'w \<Rightarrow> bool" where
  "bad_symlink env p w =
     (let syspath = source_getsyspath env p w in
      os_path_islink env syspath w \<and> \<not> os_path_exists env syspath w)"

text \<open>
  The \<open>for x in xrange(100)\<close> loop of \<open>upload_file\<close>, by the number of iterations left.
  Leaving the loop by \<open>break\<close> is a normal return; running out of iterations is the
  \<open>else\<close> of the \<open>for\<close>, which raises. An exception that no \<open>except\<close> clause names, and one
  raised by \<open>makedir\<close> inside a handler, leaves the function at once.
\<close>

fun upload_loop :: "'w sync_env \<Rightarrow> string \<Rightarrow> nat \<Rightarrow> 'w run_state \<Rightarrow> error option \<times> 'w run_state" where
  "upload_loop env p 0 st = (Some (Exception ''Error uploading''), st)"
| "upload_loop env p (Suc n) st =
     (case logged (Call_copy_file p) (copy_file env p p True) st of
        (None, st1) \<Rightarrow> (None, st1)
      | (Some e, st1) \<Rightarrow>
          if e = ParentDirectoryMissingError then
            (case logged (Call_makedir (dirname p)) (target_makedir env (dirname p)) st1 of
               (Some e2, st2) \<Rightarrow> (Some e2, st2)
             | (None, st2) \<Rightarrow> upload_loop env p n st2)
          else if e = ResourceNotFoundError then
            (if source_exists env p (world st1) then
               (case logged (Call_makedir (dirname p)) (target_makedir env (dirname p)) st1 of
                  (Some e2, st2) \<Rightarrow> (Some e2, st2)
                | (None, st2) \<Rightarrow> upload_loop env p n st2)
             else if source_hassyspath env p (world st1) then
               (if bad_symlink env p (world st1) then (None, st1)
                else upload_loop env p n st1)
             else upload_loop env p n st1)
          else (Some e, st1))"

definition upload_file :: "'w sync_env \<Rightarrow> string \<Rightarrow> 'w run_state \<Rightarrow> error option \<times> 'w run_state" where
  "upload_file env p st = upload_loop env p 100 st"

definition delete_file :: "'w sync_env \<Rightarrow> string \<Rightarrow> 'w run_state \<Rightarrow> error option \<times> 'w run_state" where
  "delete_file env p st = logged (Call_remove p) (target_remove env p) st"

definition skip_file :: "string \<Rightarrow> 'w run_state \<Rightarrow> error option \<times> 'w run_state" where
  "skip_file p st = (None, st)"

text \<open>
  The sequential branch of \<open>sync_files\<close> (\<open>processes = 0\<close>): the \<open>if/elif\<close> over the action
  function, and the \<open>for\<close> loop over the actions, which an exception leaves at once.
\<close>

fun perform :: "'w sync_env \<Rightarrow> sync_action \<Rightarrow> 'w run_state \<Rightarrow> error option \<times> 'w run_state" where
  "perform env (Upload, p) st = upload_file env p st"
| "perform env (Delete, p) st = delete_file env p st"
| "perform env (Skip, p) st = skip_file p st"

fun run_actions :: "'w sync_env \<Rightarrow> sync_action list \<Rightarrow> 'w run_state \<Rightarrow> error option \<times> 'w run_state" where
  "run_actions env [] st = (None, st)"
| "run_actions env (a # rest) st =
     (case perform env a st of
        (Some e, st') \<Rightarrow> (Some e, st')
      | (None, st') \<Rightarrow> run_actions env rest st')"

definition sync_files ::
  "'w sync_env \<Rightarrow> WalkNode list \<Rightarrow> WalkNode list \<Rightarrow> bool \<Rightarrow> 'w run_state
     \<Rightarrow> (error + bool) \<times> 'w run_state" where
  "sync_files env source_files target_files delete_missing st =
     (let actions = sync_files_actions delete_missing source_files target_files in
      case run_actions env (fst actions) st of
        (Some e, st') \<Rightarrow> (Inl e, st')
      | (None, st') \<Rightarrow>
          (case snd actions of Some e \<Rightarrow> (Inl e, st') | None \<Rightarrow> (Inr True, st')))"

text \<open>
  The sync engine on two reference filesystems \<open>(source, target)\<close>. The library's
  \<open>copyfile\<close> reads the source file and writes the target file, which fails with
  \<open>ParentDirectoryMissingError\<close> when the target directory is missing; the reference
  filesystem has no system paths, as a filesystem held in memory has none. The two
  environments after it cover what this one leaves out.
\<close>

definition mem_sync_env :: "(memfs \<times> memfs) sync_env" where
  "mem_sync_env =
     \<lparr>fs_copyfile = (\<lambda>sp tp (src, tgt).
         case mem_getcontents src sp of
           Inl e \<Rightarrow> (Some e, (src, tgt))
         | Inr c \<Rightarrow> (case mem_setcontents ParentDirectoryMissingError tgt tp c of
                      Inl e \<Rightarrow> (Some e, (src, tgt))
                    | Inr tgt' \<Rightarrow> (None, (src, tgt')))),
      target_makedir = (\<lambda>d (src, tgt).
         case mem_makedir tgt d True True of
           Inl e \<Rightarrow> (Some e, (src, tgt))
         | Inr tgt' \<Rightarrow> (None, (src, tgt'))),
      target_remove = (\<lambda>p (src, tgt).
         case mem_remove tgt p of
           Inl e \<Rightarrow> (Some e, (src, tgt))
         | Inr tgt' \<Rightarrow> (None, (src, tgt'))),
      source_exists = (\<lambda>p (src, tgt). mem_exists src p),
      source_hassyspath = (\<lambda>p w. False),
      source_getsyspath = (\<lambda>p w. p),
      os_path_islink = (\<lambda>p w. False),
      os_path_exists = (\<lambda>p w. False)\<rparr>"

text \<open>
  The same two filesystems with a target of a class that reports a missing parent directory
  with \<open>ResourceNotFoundError\<close>, the exception of the second handler of \<open>upload_file\<close>.
\<close>

definition notfound_sync_env :: "(memfs \<times> memfs) sync_env" where
  "notfound_sync_env =
     mem_sync_env\<lparr>fs_copyfile := (\<lambda>sp tp (src, tgt).
         case mem_getcontents src sp of
           Inl e \<Rightarrow> (Some e, (src, tgt))
         | Inr c \<Rightarrow> (case mem_setcontents ResourceNotFoundError tgt tp c of
                      Inl e \<Rightarrow> (Some e, (src, tgt))
                    | Inr tgt' \<Rightarrow> (None, (src, tgt'))))\<rparr>"

text \<open>
  And with a source of a class that has system paths, every one of them a symbolic link
  whose target does not exist.
\<close>

definition dangling_sync_env :: "(memfs \<times> memfs) sync_env" where
  "dangling_sync_env =
     mem_sync_env\<lparr>source_hassyspath := (\<lambda>p w. True), os_path_islink := (\<lambda>p w. True)\<rparr>"

text \<open>
  \<open>sync_fs\<close> with \<open>processes = 0\<close>, on two reference filesystems. Its listings are the
  generators \<open>walk_files(source_fs)\<close> and \<open>walk_files(target_fs)\<close>, \<open>_get_sync_actions\<close> is
  a generator over them, and the \<open>for\<close> loop of \<open>sync_files\<close> performs each action before it
  asks for the next one. So a \<open>next\<close> on a listing reads the filesystem as the actions
  performed so far have left it.

  \<open>consume\<close> is one turn of that \<open>for\<close> loop for an action the diff yields: without
  \<open>delete_missing\<close> the generator expression drops a \<open>delete_file\<close> action, every other
  action is performed.
\<close>

definition advance_source ::
  "frame list \<Rightarrow> (memfs \<times> memfs) run_state \<Rightarrow> WalkNode option \<times> frame list" where
  "advance_source source_files st = walk_files_next (fst (world st)) True source_files"

definition advance_target ::
  "frame list \<Rightarrow> (memfs \<times> memfs) run_state \<Rightarrow> WalkNode option \<times> frame list" where
  "advance_target target_files st = walk_files_next (snd (world st)) True target_files"

definition consume ::
  "bool \<Rightarrow> sync_action \<Rightarrow> (memfs \<times> memfs) run_state
     \<Rightarrow> error option \<times> (memfs \<times> memfs) run_state" where
  "consume delete_missing a st =
     (if \<not> delete_missing \<and> fst a = Delete then (None, st) else perform mem_sync_env a st)"

text \<open>
  The \<open>while sfile or tfile\<close> loop of \<open>_get_sync_actions\<close> once more, branch by branch,
  with each \<open>yield\<close> handing the action to \<open>consume\<close> and each \<open>next\<close> taken on the generator.
  An exception of an action ends the run. The target listing follows a filesystem that the
  actions change, so the loop is a partial function: \<open>None\<close> stands for a run that does not
  return.
\<close>

partial_function (option) sync_fs_loop ::
  "bool \<Rightarrow> WalkNode option \<Rightarrow> frame list \<Rightarrow> WalkNode option \<Rightarrow> frame list
     \<Rightarrow> (memfs \<times> memfs) run_state
     \<Rightarrow> ((error + bool) \<times> (memfs \<times> memfs) run_state) option" where
  "sync_fs_loop delete_missing sfile source_files tfile target_files st =
     (case sfile of
        None \<Rightarrow>
          (case tfile of
             None \<Rightarrow> Some (Inr True, st)
           | Some t \<Rightarrow>
               (case consume delete_missing (Delete, path t) st of
                  (Some e, st') \<Rightarrow> Some (Inl e, st')
                | (None, st') \<Rightarrow>
                    sync_fs_loop delete_missing None source_files
                      (fst (advance_target target_files st')) (snd (advance_target target_files st'))
                      st'))
      | Some s \<Rightarrow>
          (case tfile of
             None \<Rightarrow>
               (case consume delete_missing (Upload, path s) st of
                  (Some e, st') \<Rightarrow> Some (Inl e, st')
                | (None, st') \<Rightarrow>
                    sync_fs_loop delete_missing
                      (fst (advance_source source_files st')) (snd (advance_source source_files st'))
                      None target_files st')
           | Some t \<Rightarrow>
               if path s = path t then
                 (case consume delete_missing
                         (if size_bytes s = size_bytes t then (Skip, path s) else (Upload, path s))
                         st of
                    (Some e, st') \<Rightarrow> Some (Inl e, st')
                  | (None, st') \<Rightarrow>
                      sync_fs_loop delete_missing
                        (fst (advance_source source_files st')) (snd (advance_source source_files st'))
                        (fst (advance_target target_files st')) (snd (advance_target target_files st'))
                        st')
               else if path s > path t then
                 (case consume delete_missing (Delete, path t) st of
                    (Some e, st') \<Rightarrow> Some (Inl e, st')
                  | (None, st') \<Rightarrow>
                      sync_fs_loop delete_missing (Some s) source_files
                        (fst (advance_target target_files st')) (snd (advance_target target_files st'))
                        st')
               else if path t > path s then
                 (case consume delete_missing (Upload, path s) st of
                    (Some e, st') \<Rightarrow> Some (Inl e, st')
                  | (None, st') \<Rightarrow>
                      sync_fs_loop delete_missing
                        (fst (advance_source source_files st')) (snd (advance_source source_files st'))
                        (Some t) target_files st')
               else Some (Inl (ValueError ''This should be logically impossible.''), st)))"

declare sync_fs_loop.simps [code]

text \<open>
  \<open>sync_fs\<close>: both generators are \<open>walk_files\<close> with its defaults (\<open>path='/'\<close>, \<open>sort=True\<close>,
  \<open>max_depth=float('inf')\<close>), not yet started; the first two statements of
  \<open>_get_sync_actions\<close> take the first node of each.
\<close>

definition sync_fs ::
  "memfs \<Rightarrow> memfs \<Rightarrow> bool \<Rightarrow> ((error + bool) \<times> (memfs \<times> memfs) run_state) option" where
  "sync_fs source_fs target_fs delete_missing =
     (let st = \<lparr>world = (source_fs, target_fs), trace = []\<rparr>;
          source_start = advance_source [Todo ''/'' \<infinity>] st;
          target_start = advance_target [Todo ''/'' \<infinity>] st
      in sync_fs_loop delete_missing (fst source_start) (snd source_start)
           (fst target_start) (snd target_start) st)"
section \<open>Filesystem objects as records of operations\<close>

text \<open>
  \<open>CacheFS\<close> and \<open>MultiFS\<close> wrap filesystem objects of any class. Such an object is a
  state \<open>'s\<close> together with its methods, each a function from the state to an outcome and
  the next state; \<open>Inl e\<close> is the exception \<open>e\<close>. Nothing is assumed of the functions, so a
  method may fail in any way and may record in the state that it was called.
  \<^item> \<open>b_open path mode\<close> returns the contents the opened file object starts with;
  \<^item> \<open>b_write path data\<close> is \<open>write(data)\<close> and \<open>close()\<close> on the file object that
    \<open>b_open path ''wb''\<close> returned;
  \<^item> \<open>b_makedir path recursive allow_recreate\<close>, \<open>b_setcontents path data\<close>,
    \<open>b_remove path\<close> and \<open>b_exists path\<close> are the methods of those names.
\<close>

record 's backend =
  b_exists :: "string \<Rightarrow> 's \<Rightarrow> bool \<times> 's"
  b_open :: "string \<Rightarrow> string \<Rightarrow> 's \<Rightarrow> (error + string) \<times> 's"
  b_write :: "string \<Rightarrow> string \<Rightarrow> 's \<Rightarrow> (error + unit) \<times> 's"
  b_setcontents :: "string \<Rightarrow> string \<Rightarrow> 's \<Rightarrow> (error + unit) \<times> 's"
  b_makedir :: "string \<Rightarrow> bool \<Rightarrow> bool \<Rightarrow> 's \<Rightarrow> (error + unit) \<times> 's"
  b_remove :: "string \<Rightarrow> 's \<Rightarrow> (error + unit) \<times> 's"

text \<open>The reference filesystem as such an object: an operation that fails leaves it as it
  was.\<close>

definition updated :: "memfs \<Rightarrow> error + memfs \<Rightarrow> (error + unit) \<times> memfs" where
  "updated fs r = (case r of Inl e \<Rightarrow> (Inl e, fs) | Inr fs' \<Rightarrow> (Inr (), fs'))"

definition mem_backend :: "error \<Rightarrow> memfs backend" where
  "mem_backend missing =
     \<lparr>b_exists = (\<lambda>p fs. (mem_exists fs p, fs)),
      b_open = (\<lambda>p mode fs. mem_open missing fs p mode),
      b_write = (\<lambda>p data fs. updated fs (mem_write fs p data)),
      b_setcontents = (\<lambda>p data fs. updated fs (mem_setcontents missing fs p data)),
      b_makedir = (\<lambda>p recursive allow_recreate fs.
                     updated fs (mem_makedir fs p recursive allow_recreate)),
      b_remove = (\<lambda>p fs. updated fs (mem_remove fs p))\<rparr>"

text \<open>
  A second filesystem object, for the protocol statements: its state is the list of the
  methods called on it, nothing exists on it, its \<open>makedir\<close> succeeds and every other method
  raises \<open>e\<close>.
\<close>

definition failing_backend :: "error \<Rightarrow> string list backend" where
  "failing_backend e =
     \<lparr>b_exists = (\<lambda>p s. (False, s @ [''exists''])),
      b_open = (\<lambda>p mode s. (Inl e, s @ [''open''])),
      b_write = (\<lambda>p data s. (Inl e, s @ [''write''])),
      b_setcontents = (\<lambda>p data s. (Inl e, s @ [''setcontents''])),
      b_makedir = (\<lambda>p recursive allow_recreate s. (Inr (), s @ [''makedir''])),
      b_remove = (\<lambda>p s. (Inl e, s @ [''remove'']))\<rparr>"

section \<open>The caching wrapper (\<open>wrapfs/cachefs.py\<close>)\<close>

text \<open>
  A \<open>CacheFS\<close> object holds the wrapped filesystem and the cache filesystem. \<open>fs_calls\<close> is
  not an attribute of the object: it lists the calls made on the wrapped filesystem, the
  quantity the statements about cache hits and misses count.
\<close>

record ('s, 'c) CacheFS =
  wrapped_fs :: 's
  cachefs :: 'c
  fs_calls :: "call list"

definition on_source ::
  "call \<Rightarrow> ('s \<Rightarrow> 'r \<times> 's) \<Rightarrow> ('s, 'c) CacheFS \<Rightarrow> 'r \<times> ('s, 'c) CacheFS" where
  "on_source c f cf =
     (case f (wrapped_fs cf) of
        (r, s') \<Rightarrow> (r, cf\<lparr>wrapped_fs := s', fs_calls := fs_calls cf @ [c]\<rparr>))"

definition on_cache :: "('c \<Rightarrow> 'r \<times> 'c) \<Rightarrow> ('s, 'c) CacheFS \<Rightarrow> 'r \<times> ('s, 'c) CacheFS" where
  "on_cache f cf = (case f (cachefs cf) of (r, c') \<Rightarrow> (r, cf\<lparr>cachefs := c'\<rparr>))"

text \<open>
  What \<open>open\<close> returns: a file object of the wrapped filesystem or of the cache, with its
  mode and the contents it reads, or for a write mode the \<open>CacheFile\<close> wrapper, which holds
  the mode, the file object of the wrapped filesystem and the path it purges on \<open>close\<close>.
\<close>

datatype origin = Source | Cache

datatype opened_file =
    OpenFile origin string string
  | CacheFile string string string

text \<open>\<open>CacheFS._purge\<close>.\<close>

definition purge ::
  "'c backend \<Rightarrow> string \<Rightarrow> ('s, 'c) CacheFS \<Rightarrow> (error + unit) \<times> ('s, 'c) CacheFS" where
  "purge cache p cf =
     (case on_cache (b_remove cache p) cf of
        (Inr u, cf1) \<Rightarrow> (Inr (), cf1)
      | (Inl e, cf1) \<Rightarrow> if e = ResourceNotFoundError then (Inr (), cf1) else (Inl e, cf1))"

text \<open>The \<open>try: new_file = self.cachefs.open(path, 'wb')\<close> statement of \<open>CacheFS.open\<close>, with
  its \<open>except ResourceNotFoundError\<close> handler.\<close>

definition open_new_file ::
  "'c backend \<Rightarrow> string \<Rightarrow> ('s, 'c) CacheFS \<Rightarrow> (error + string) \<times> ('s, 'c) CacheFS" where
  "open_new_file cache p cf =
     (case on_cache (b_open cache p ''wb'') cf of
        (Inr new_file, cf1) \<Rightarrow> (Inr new_file, cf1)
      | (Inl e, cf1) \<Rightarrow>
          if e = ResourceNotFoundError then
            (case on_cache (b_makedir cache (dirname p) True True) cf1 of
               (Inl e2, cf2) \<Rightarrow> (Inl e2, cf2)
             | (Inr u, cf2) \<Rightarrow> on_cache (b_open cache p ''wb'') cf2)
          else (Inl e, cf1))"

text \<open>
  \<open>CacheFS.open\<close>. \<open>src\<close> and \<open>cache\<close> are the classes of the two filesystems and
  \<open>normpath\<close> is \<open>fs.path.normpath\<close>. \<open>super(CacheFS, self).open\<close> is the wrapped
  filesystem's \<open>open\<close>.
\<close>

definition CacheFS_open ::
  "'s backend \<Rightarrow> 'c backend \<Rightarrow> (string \<Rightarrow> string) \<Rightarrow> string \<Rightarrow> string \<Rightarrow> ('s, 'c) CacheFS
     \<Rightarrow> (error + opened_file) \<times> ('s, 'c) CacheFS" where
  "CacheFS_open src cache normpath path0 mode cf =
     (let p = normpath path0 in
      if write_mode mode then
        (case on_source (Call_open p mode) (b_open src p mode) cf of
           (Inl e, cf1) \<Rightarrow> (Inl e, cf1)
         | (Inr open_file, cf1) \<Rightarrow> (Inr (CacheFile mode open_file p), cf1))
      else
        (case on_cache (b_open cache p mode) cf of
           (Inr f, cf1) \<Rightarrow> (Inr (OpenFile Cache mode f), cf1)
         | (Inl e, cf1) \<Rightarrow>
             if e = ResourceNotFoundError then
               (case on_source (Call_open p ''rb'') (b_open src p ''rb'') cf1 of
                  (Inl e2, cf2) \<Rightarrow> (Inl e2, cf2)
                | (Inr old_file, cf2) \<Rightarrow>
                    (case open_new_file cache p cf2 of
                       (Inl e3, cf3) \<Rightarrow> (Inl e3, cf3)
                     | (Inr new_file, cf3) \<Rightarrow>
                         (case on_cache (b_write cache p old_file) cf3 of
                            (Inl e4, cf4) \<Rightarrow> (Inl e4, cf4)
                          | (Inr u, cf4) \<Rightarrow>
                              if mode = ''rb'' then (Inr (OpenFile Source ''rb'' old_file), cf4)
                              else
                                (case on_cache (b_open cache p mode) cf4 of
                                   (Inl e5, cf5) \<Rightarrow> (Inl e5, cf5)
                                 | (Inr f, cf5) \<Rightarrow> (Inr (OpenFile Cache mode f), cf5)))))
             else (Inl e, cf1)))"

text \<open>\<open>CacheFS.setcontents\<close>: the \<open>finally\<close> clause runs whatever the wrapped filesystem's
  \<open>setcontents\<close> did, and an exception it raises itself replaces the outcome.\<close>

definition CacheFS_setcontents ::
  "'s backend \<Rightarrow> 'c backend \<Rightarrow> (string \<Rightarrow> string) \<Rightarrow> string \<Rightarrow> string \<Rightarrow> ('s, 'c) CacheFS
     \<Rightarrow> (error + unit) \<times> ('s, 'c) CacheFS" where
  "CacheFS_setcontents src cache normpath path0 data cf =
     (let p = normpath path0 in
      case on_source (Call_setcontents p data) (b_setcontents src p data) cf of
        (r, cf1) \<Rightarrow>
          (case purge cache p cf1 of
             (Inl e, cf2) \<Rightarrow> (Inl e, cf2)
           | (Inr u, cf2) \<Rightarrow> (r, cf2)))"

section \<open>The layered filesystem (\<open>multifs.py\<close>)\<close>

text \<open>
  A \<open>MultiFS\<close> object holds its layers, here in the order in which the object is iterated
  (\<open>for fs in self\<close>), and the layer that takes the writes, given by its position. All
  layers share the class \<open>ops\<close>; a layer's state can say which kind of filesystem it is.

  An attribute of a Python object is there only once a statement has assigned it; reading
  one that is not there raises \<open>AttributeError\<close>. The methods read \<open>self.writefs\<close>, so the
  record says whether that attribute is set: \<open>Unset\<close>, or \<open>Attribute v\<close> with \<open>v\<close> either
  \<open>None\<close> or a layer.

  \<open>__init__\<close> calls \<open>super(multifs.MultiFS, self).__init__\<close>, the constructor of the class
  above the library's \<open>MultiFS\<close>, and then assigns \<open>auto_close\<close>, \<open>fs_sequence = []\<close>,
  \<open>fs_lookup = {}\<close>, \<open>write_fs = None\<close> and \<open>test_mode = False\<close>. No statement of the
  repository assigns \<open>writefs\<close>; the object gets it from the library's \<open>addfs\<close> with
  \<open>write=True\<close> or \<open>setwritefs\<close>. \<open>auto_close\<close>, \<open>fs_lookup\<close> and \<open>test_mode\<close> are not read
  by the methods below and are left out.
\<close>

datatype 'a attribute = Unset | Attribute 'a

record 's MultiFS =
  fs_sequence :: "'s list"
  write_fs :: "nat option"
  writefs :: "nat option attribute"

definition MultiFS_init :: "'s MultiFS" where
  "MultiFS_init = \<lparr>fs_sequence = [], write_fs = None, writefs = Unset\<rparr>"

definition on_layer :: "nat \<Rightarrow> ('s \<Rightarrow> 'r \<times> 's) \<Rightarrow> 's MultiFS \<Rightarrow> 'r \<times> 's MultiFS" where
  "on_layer i f m =
     (case f (fs_sequence m ! i) of
        (r, s') \<Rightarrow> (r, m\<lparr>fs_sequence := (fs_sequence m)[i := s']\<rparr>))"

text \<open>
  Modelled from the spec: \<open>open\<close> of the library class \<open>fs.multifs.MultiFS\<close>, which
  \<open>MultiFS.open\<close> reaches through \<open>super\<close> and whose code is not in the repository. Section
  4.1: a write mode goes to the write layer and fails with a "no writable layer" error when
  there is none; a read mode scans the layers in order and opens the path on the first layer
  where it exists. Where \<open>writefs\<close> is not set, reading it raises \<open>AttributeError\<close>.
\<close>

fun scan_open ::
  "'s backend \<Rightarrow> string \<Rightarrow> string \<Rightarrow> nat list \<Rightarrow> 's MultiFS \<Rightarrow> (error + string) \<times> 's MultiFS" where
  "scan_open ops p mode [] m = (Inl ResourceNotFoundError, m)"
| "scan_open ops p mode (i # rest) m =
     (case on_layer i (b_exists ops p) m of
        (True, m1) \<Rightarrow> on_layer i (b_open ops p mode) m1
      | (False, m1) \<Rightarrow> scan_open ops p mode rest m1)"

definition super_open ::
  "'s backend \<Rightarrow> string \<Rightarrow> string \<Rightarrow> 's MultiFS \<Rightarrow> (error + string) \<times> 's MultiFS" where
  "super_open ops p mode m =
     (if write_mode mode then
        (case writefs m of
           Unset \<Rightarrow> (Inl (AttributeError ''writefs''), m)
         | Attribute None \<Rightarrow> (Inl (OperationFailedError ''open'' ''No writeable FS set''), m)
         | Attribute (Some i) \<Rightarrow> on_layer i (b_open ops p mode) m)
      else scan_open ops p mode [0 ..< length (fs_sequence m)] m)"

text \<open>
  \<open>_autocreate_missing_writefs_directory\<close>, applied to the operation of its \<open>with\<close> block.
  The \<open>except (OSError, ResourceNotFoundError)\<close> clause catches these two exceptions only;
  the bare \<open>raise\<close> at its end raises the caught exception again. The handler reads
  \<open>fs.writefs\<close> first, which raises \<open>AttributeError\<close> where the attribute is not set.
\<close>

definition autocreate_missing_writefs_directory ::
  "'s backend \<Rightarrow> string \<Rightarrow> string \<Rightarrow> ('s MultiFS \<Rightarrow> (error + 'a) \<times> 's MultiFS) \<Rightarrow> 's MultiFS
     \<Rightarrow> (error + 'a) \<times> 's MultiFS" where
  "autocreate_missing_writefs_directory ops p mode operation m =
     (case operation m of
        (Inr v, m1) \<Rightarrow> (Inr v, m1)
      | (Inl e, m1) \<Rightarrow>
          if e = OSError \<or> e = ResourceNotFoundError then
            (case writefs m1 of
               Unset \<Rightarrow> (Inl (AttributeError ''writefs''), m1)
             | Attribute None \<Rightarrow> (Inl e, m1)
             | Attribute (Some i) \<Rightarrow>
                 if write_mode mode then
                   (let parent_dir = dirname p in
                    case on_layer i (b_exists ops parent_dir) m1 of
                      (True, m2) \<Rightarrow> (Inl e, m2)
                    | (False, m2) \<Rightarrow>
                        (case on_layer i (b_makedir ops parent_dir True True) m2 of
                           (Inl e2, m3) \<Rightarrow> (Inl e2, m3)
                         | (Inr u, m3) \<Rightarrow> (Inl CreatedDirectory, m3)))
                 else (Inl e, m1))
          else (Inl e, m1))"

text \<open>The \<open>try ... except CreatedDirectory\<close> around the \<open>with\<close> block, shared by
  \<open>MultiFS.open\<close> and \<open>MultiFS.setcontents\<close>: the operation is run once more.\<close>

definition retry_on_created ::
  "('s MultiFS \<Rightarrow> (error + 'a) \<times> 's MultiFS) \<Rightarrow> (error + 'a) \<times> 's MultiFS
     \<Rightarrow> (error + 'a) \<times> 's MultiFS" where
  "retry_on_created operation outcome =
     (case outcome of
        (Inl e, m1) \<Rightarrow> if e = CreatedDirectory then operation m1 else (Inl e, m1)
      | (Inr v, m1) \<Rightarrow> (Inr v, m1))"

definition MultiFS_open ::
  "'s backend \<Rightarrow> string \<Rightarrow> string \<Rightarrow> 's MultiFS \<Rightarrow> (error + string) \<times> 's MultiFS" where
  "MultiFS_open ops p mode m =
     retry_on_created (super_open ops p mode)
       (autocreate_missing_writefs_directory ops p mode (super_open ops p mode) m)"

definition MultiFS_makedir ::
  "'s backend \<Rightarrow> string \<Rightarrow> bool \<Rightarrow> bool \<Rightarrow> 's MultiFS \<Rightarrow> (error + unit) \<times> 's MultiFS" where
  "MultiFS_makedir ops p recursive allow_recreate m =
     (case writefs m of
        Unset \<Rightarrow> (Inl (AttributeError ''writefs''), m)
      | Attribute None \<Rightarrow> (Inl (OperationFailedError ''makedir'' ''No writeable FS set''), m)
      | Attribute (Some i) \<Rightarrow> on_layer i (b_makedir ops p recursive allow_recreate) m)"

definition MultiFS_remove ::
  "'s backend \<Rightarrow> string \<Rightarrow> 's MultiFS \<Rightarrow> (error + unit) \<times> 's MultiFS" where
  "MultiFS_remove ops p m =
     (case writefs m of
        Unset \<Rightarrow> (Inl (AttributeError ''writefs''), m)
      | Attribute None \<Rightarrow> (Inl (OperationFailedError ''remove'' ''No writeable FS set''), m)
      | Attribute (Some i) \<Rightarrow> on_layer i (b_remove ops p) m)"

definition MultiFS_setcontents ::
  "'s backend \<Rightarrow> string \<Rightarrow> string \<Rightarrow> 's MultiFS \<Rightarrow> (error + unit) \<times> 's MultiFS" where
  "MultiFS_setcontents ops p data m =
     (case writefs m of
        Unset \<Rightarrow> (Inl (AttributeError ''writefs''), m)
      | Attribute None \<Rightarrow> (Inl (OperationFailedError ''setcontents'' ''No writeable FS set''), m)
      | Attribute (Some i) \<Rightarrow>
          retry_on_created (on_layer i (b_setcontents ops p data))
            (autocreate_missing_writefs_directory ops p ''w''
               (on_layer i (b_setcontents ops p data)) m))"

section \<open>Vocabulary of the statements\<close>

text \<open>
  The definitions of this section are not code of the repository; they name what the
  statements below talk about. \<open>listed_size xs p\<close> is the size a listing gives for the path
  \<open>p\<close>, and \<open>expected_action\<close> is the action the diff owes a path, from its size in the
  origin listing and its size in the target listing.
\<close>

definition listed_size :: "WalkNode list \<Rightarrow> string \<Rightarrow> int option" where
  "listed_size xs p = map_of (map (\<lambda>n. (path n, size_bytes n)) xs) p"

fun expected_action :: "int option \<Rightarrow> int option \<Rightarrow> action option" where
  "expected_action (Some a) (Some b) = Some (if a = b then Skip else Upload)"
| "expected_action (Some a) None = Some Upload"
| "expected_action None (Some b) = Some Delete"
| "expected_action None None = None"

text \<open>\<open>copy_attempts p tr\<close> counts the calls of \<open>copy_file\<close> for \<open>p\<close> in a trace.\<close>

definition copy_attempts :: "string \<Rightarrow> call list \<Rightarrow> nat" where
  "copy_attempts p tr = length (filter (\<lambda>c. c = Call_copy_file p) tr)"

text \<open>\<open>only_layer i m m'\<close>: the layered filesystem \<open>m'\<close> is \<open>m\<close> but for the state of layer
  \<open>i\<close>.\<close>

definition only_layer :: "nat \<Rightarrow> 's MultiFS \<Rightarrow> 's MultiFS \<Rightarrow> bool" where
  "only_layer i m m' \<longleftrightarrow> (\<exists>s. m' = m\<lparr>fs_sequence := (fs_sequence m)[i := s]\<rparr>)"

section \<open>Properties of the diff\<close>

subsection \<open>The diff as a recursion on the two listings\<close>

lemma get_sync_actions_Nil_Nil: "get_sync_actions [] [] = ([], None)"
  by (simp add: get_sync_actions_def next_node_def)

lemma get_sync_actions_Nil_Cons:
  "get_sync_actions [] (t # ts) = yield (Delete, path t) (get_sync_actions [] ts)"
  by (simp add: get_sync_actions_def next_node_def)

lemma get_sync_actions_Cons_Nil:
  "get_sync_actions (s # ss) [] = yield (Upload, path s) (get_sync_actions ss [])"
  by (simp add: get_sync_actions_def next_node_def)

lemma get_sync_actions_Cons_Cons:
  "get_sync_actions (s # ss) (t # ts) =
     (if path s = path t then
        yield (if size_bytes s = size_bytes t then (Skip, path s) else (Upload, path s))
          (get_sync_actions ss ts)
      else if path s > path t then yield (Delete, path t) (get_sync_actions (s # ss) ts)
      else if path t > path s then yield (Upload, path s) (get_sync_actions ss (t # ts))
      else ([], Some (ValueError ''This should be logically impossible.'')))"
  by (simp add: get_sync_actions_def next_node_def)

lemmas get_sync_actions_simps =
  get_sync_actions_Nil_Nil get_sync_actions_Nil_Cons get_sync_actions_Cons_Nil
  get_sync_actions_Cons_Cons

lemma diff_induct [case_names Nil_Nil Nil_Cons Cons_Nil Cons_Cons]:
  assumes "P [] []"
    and "\<And>t ts. P [] ts \<Longrightarrow> P [] (t # ts)"
    and "\<And>s ss. P ss [] \<Longrightarrow> P (s # ss) []"
    and "\<And>s ss t ts.
           (path s = path t \<Longrightarrow> P ss ts) \<Longrightarrow>
           (path t < path s \<Longrightarrow> P (s # ss) ts) \<Longrightarrow>
           (path s < path t \<Longrightarrow> P ss (t # ts)) \<Longrightarrow> P (s # ss) (t # ts)"
  shows "P ss ts"
proof (induction "length ss + length ts" arbitrary: ss ts rule: less_induct)
  case less
  show ?case
  proof (cases ss)
    case Nil
    note ss = this
    show ?thesis
    proof (cases ts)
      case Nil
      with ss assms(1) show ?thesis by simp
    next
      case (Cons t ts')
      with ss less assms(2) show ?thesis by simp
    qed
  next
    case (Cons s ss')
    note ss = this
    show ?thesis
    proof (cases ts)
      case Nil
      with ss less assms(3) show ?thesis by simp
    next
      case (Cons t ts')
      have "P (s # ss') (t # ts')"
        by (rule assms(4)) (auto intro!: less simp: ss Cons)
      with ss Cons show ?thesis by simp
    qed
  qed
qed

lemma sync_loop_no_error: "snd (sync_loop sfile source_files tfile target_files) = None"
  by (induction sfile source_files tfile target_files rule: sync_loop.induct)
     (auto simp: yield_def)

lemma get_sync_actions_no_error: "snd (get_sync_actions source_files target_files) = None"
  by (simp add: get_sync_actions_def sync_loop_no_error)

lemma listed_size_Nil [simp]: "listed_size [] p = None"
  by (simp add: listed_size_def)

lemma listed_size_Cons [simp]:
  "listed_size (x # xs) p = (if p = path x then Some (size_bytes x) else listed_size xs p)"
  by (simp add: listed_size_def)

lemma listed_size_None_iff: "listed_size xs p = None \<longleftrightarrow> p \<notin> path ` set xs"
  by (induction xs) auto

lemma listed_size_above: "\<forall>y\<in>set xs. p < path y \<Longrightarrow> listed_size xs p = None"
  by (induction xs) auto

lemma diff_paths_subset:
  "(k, p) \<in> set (fst (get_sync_actions ss ts)) \<Longrightarrow> p \<in> path ` set ss \<union> path ` set ts"
  by (induction ss ts rule: diff_induct)
     (auto simp: get_sync_actions_simps yield_def split: if_splits)

lemma diff_paths_above:
  assumes "(k, p) \<in> set (fst (get_sync_actions ss ts))"
    and "\<forall>y\<in>set ss. q < path y" and "\<forall>y\<in>set ts. q < path y"
  shows "q < p"
  using diff_paths_subset[OF assms(1)] assms(2,3) by auto

lemma diff_member:
  "sorted_wrt (<) (map path ss) \<Longrightarrow> sorted_wrt (<) (map path ts) \<Longrightarrow>
   (k, p) \<in> set (fst (get_sync_actions ss ts)) \<longleftrightarrow>
     expected_action (listed_size ss p) (listed_size ts p) = Some k"
proof (induction ss ts rule: diff_induct)
  case Nil_Nil
  then show ?case by (simp add: get_sync_actions_simps)
next
  case (Nil_Cons t ts)
  have above: "\<forall>y\<in>set ts. path t < path y" using Nil_Cons.prems by simp
  have rest: "(k, path t) \<notin> set (fst (get_sync_actions [] ts))"
    using diff_paths_above[of k "path t" "[]" ts "path t"] above by auto
  show ?case
  proof (cases "p = path t")
    case True
    with rest show ?thesis by (auto simp: get_sync_actions_simps yield_def)
  next
    case False
    with Nil_Cons show ?thesis by (simp add: get_sync_actions_simps yield_def)
  qed
next
  case (Cons_Nil s ss)
  have above: "\<forall>y\<in>set ss. path s < path y" using Cons_Nil.prems by simp
  have rest: "(k, path s) \<notin> set (fst (get_sync_actions ss []))"
    using diff_paths_above[of k "path s" ss "[]" "path s"] above by auto
  show ?case
  proof (cases "p = path s")
    case True
    with rest show ?thesis by (auto simp: get_sync_actions_simps yield_def)
  next
    case False
    with Cons_Nil show ?thesis by (simp add: get_sync_actions_simps yield_def)
  qed
next
  case (Cons_Cons s ss t ts)
  have aboveS: "\<forall>y\<in>set ss. path s < path y" and sortS: "sorted_wrt (<) (map path ss)"
    using Cons_Cons.prems by simp_all
  have aboveT: "\<forall>y\<in>set ts. path t < path y" and sortT: "sorted_wrt (<) (map path ts)"
    using Cons_Cons.prems by simp_all
  consider (eq) "path s = path t" | (gt) "path t < path s" | (lt) "path s < path t"
    by (metis less_linear)
  then show ?case
  proof cases
    case eq
    have rest: "(k, path s) \<notin> set (fst (get_sync_actions ss ts))"
      using diff_paths_above[of k "path s" ss ts "path s"] aboveS aboveT eq by auto
    show ?thesis
    proof (cases "p = path s")
      case True
      with rest eq show ?thesis by (auto simp: get_sync_actions_simps yield_def)
    next
      case False
      with eq Cons_Cons.IH(1)[OF eq sortS sortT] show ?thesis
        by (simp add: get_sync_actions_simps yield_def)
    qed
  next
    case gt
    have aboveS': "\<forall>y\<in>set (s # ss). path t < path y" using gt aboveS by auto
    have rest: "(k, path t) \<notin> set (fst (get_sync_actions (s # ss) ts))"
      using diff_paths_above[of k "path t" "s # ss" ts "path t"] aboveS' aboveT by blast
    have none: "listed_size (s # ss) (path t) = None"
      using listed_size_above[OF aboveS'] .
    show ?thesis
    proof (cases "p = path t")
      case True
      with rest gt none show ?thesis
        by (auto simp: get_sync_actions_Cons_Cons yield_def)
    next
      case False
      with gt Cons_Cons.IH(2)[OF gt Cons_Cons.prems(1) sortT] show ?thesis
        by (auto simp: get_sync_actions_Cons_Cons yield_def)
    qed
  next
    case lt
    have aboveT': "\<forall>y\<in>set (t # ts). path s < path y" using lt aboveT by auto
    have rest: "(k, path s) \<notin> set (fst (get_sync_actions ss (t # ts)))"
      using diff_paths_above[of k "path s" ss "t # ts" "path s"] aboveS aboveT' by blast
    have none: "listed_size (t # ts) (path s) = None"
      using listed_size_above[OF aboveT'] .
    show ?thesis
    proof (cases "p = path s")
      case True
      with rest lt none show ?thesis
        by (auto simp: get_sync_actions_Cons_Cons yield_def)
    next
      case False
      with lt Cons_Cons.IH(3)[OF lt sortS Cons_Cons.prems(2)] show ?thesis
        by (auto simp: get_sync_actions_Cons_Cons yield_def)
    qed
  qed
qed


lemma diff_distinct:
  "sorted_wrt (<) (map path ss) \<Longrightarrow> sorted_wrt (<) (map path ts) \<Longrightarrow>
   distinct (map snd (fst (get_sync_actions ss ts)))"
proof (induction ss ts rule: diff_induct)
  case Nil_Nil
  then show ?case by (simp add: get_sync_actions_simps)
next
  case (Nil_Cons t ts)
  have "\<And>k. (k, path t) \<notin> set (fst (get_sync_actions [] ts))"
    using diff_paths_above[of _ "path t" "[]" ts "path t"] Nil_Cons.prems by auto
  then have "path t \<notin> snd ` set (fst (get_sync_actions [] ts))" by force
  with Nil_Cons show ?case by (simp add: get_sync_actions_simps yield_def)
next
  case (Cons_Nil s ss)
  have "\<And>k. (k, path s) \<notin> set (fst (get_sync_actions ss []))"
    using diff_paths_above[of _ "path s" ss "[]" "path s"] Cons_Nil.prems by auto
  then have "path s \<notin> snd ` set (fst (get_sync_actions ss []))" by force
  with Cons_Nil show ?case by (simp add: get_sync_actions_simps yield_def)
next
  case (Cons_Cons s ss t ts)
  have aboveS: "\<forall>y\<in>set ss. path s < path y" and sortS: "sorted_wrt (<) (map path ss)"
    using Cons_Cons.prems by simp_all
  have aboveT: "\<forall>y\<in>set ts. path t < path y" and sortT: "sorted_wrt (<) (map path ts)"
    using Cons_Cons.prems by simp_all
  consider (eq) "path s = path t" | (gt) "path t < path s" | (lt) "path s < path t"
    by (metis less_linear)
  then show ?case
  proof cases
    case eq
    have "\<And>k. (k, path s) \<notin> set (fst (get_sync_actions ss ts))"
      using diff_paths_above[of _ "path s" ss ts "path s"] aboveS aboveT eq by auto
    then have "path s \<notin> snd ` set (fst (get_sync_actions ss ts))" by force
    with eq Cons_Cons.IH(1)[OF eq sortS sortT] show ?thesis
      by (simp add: get_sync_actions_Cons_Cons yield_def)
  next
    case gt
    have aboveS': "\<forall>y\<in>set (s # ss). path t < path y" using gt aboveS by auto
    have "\<And>k. (k, path t) \<notin> set (fst (get_sync_actions (s # ss) ts))"
      using diff_paths_above[of _ "path t" "s # ss" ts "path t"] aboveS' aboveT by blast
    then have "path t \<notin> snd ` set (fst (get_sync_actions (s # ss) ts))" by force
    with gt Cons_Cons.IH(2)[OF gt Cons_Cons.prems(1) sortT] show ?thesis
      by (auto simp: get_sync_actions_Cons_Cons yield_def)
  next
    case lt
    have aboveT': "\<forall>y\<in>set (t # ts). path s < path y" using lt aboveT by auto
    have "\<And>k. (k, path s) \<notin> set (fst (get_sync_actions ss (t # ts)))"
      using diff_paths_above[of _ "path s" ss "t # ts" "path s"] aboveS aboveT' by blast
    then have "path s \<notin> snd ` set (fst (get_sync_actions ss (t # ts)))" by force
    with lt Cons_Cons.IH(3)[OF lt sortS Cons_Cons.prems(2)] show ?thesis
      by (auto simp: get_sync_actions_Cons_Cons yield_def)
  qed
qed

lemma listed_size_Some_iff:
  "sorted_wrt (<) (map path xs) \<Longrightarrow>
   listed_size xs p = Some v \<longleftrightarrow> (\<exists>n\<in>set xs. path n = p \<and> size_bytes n = v)"
  by (induction xs) auto

lemma expected_Upload_iff:
  "expected_action a b = Some Upload \<longleftrightarrow>
     (a \<noteq> None \<and> b = None) \<or> (\<exists>x y. a = Some x \<and> b = Some y \<and> x \<noteq> y)"
  by (cases a; cases b) auto

lemma expected_Skip_iff:
  "expected_action a b = Some Skip \<longleftrightarrow> (\<exists>x. a = Some x \<and> b = Some x)"
  by (cases a; cases b) auto

lemma expected_Delete_iff:
  "expected_action a b = Some Delete \<longleftrightarrow> (a = None \<and> b \<noteq> None)"
  by (cases a; cases b) auto

lemma sync_files_actions_member:
  "(k, p) \<in> set (fst (sync_files_actions delete_missing ss ts)) \<longleftrightarrow>
     (k, p) \<in> set (fst (get_sync_actions ss ts)) \<and> (delete_missing \<or> k \<noteq> Delete)"
  by (auto simp: sync_files_actions_def Let_def)

lemma sync_files_actions_distinct:
  "distinct (map snd (fst (get_sync_actions ss ts))) \<Longrightarrow>
   distinct (map snd (fst (sync_files_actions delete_missing ss ts)))"
  by (simp add: sync_files_actions_def Let_def distinct_map_filter)

text \<open>
  C1. For strictly path-sorted listings \<open>origin\<close> and \<open>target\<close>, the action stream that
  \<open>sync_files\<close> consumes (the diff, without its deletes unless \<open>delete_missing\<close>) uploads
  exactly the paths of \<open>origin\<close> that \<open>target\<close> lacks or lists with another size, skips
  exactly the paths both list with the same size, deletes exactly the paths only \<open>target\<close>
  lists and only under \<open>delete_missing\<close>, names no path twice and no path outside the two
  listings, and ends without an exception. Nothing is asked of \<open>isdir\<close>: the diff does not
  read it, so the statement covers the file-only listings of the claim.
\<close>

theorem sync_actions_exact:
  assumes "sorted_wrt (<) (map path origin)" and "sorted_wrt (<) (map path target)"
  shows "{p. (Upload, p) \<in> set (fst (sync_files_actions delete_missing origin target))} =
           {p. p \<in> path ` set origin \<and> p \<notin> path ` set target} \<union>
           {p. \<exists>s\<in>set origin. \<exists>t\<in>set target.
                 path s = p \<and> path t = p \<and> size_bytes s \<noteq> size_bytes t}
       \<and> {p. (Skip, p) \<in> set (fst (sync_files_actions delete_missing origin target))} =
           {p. \<exists>s\<in>set origin. \<exists>t\<in>set target.
                 path s = p \<and> path t = p \<and> size_bytes s = size_bytes t}
       \<and> {p. (Delete, p) \<in> set (fst (sync_files_actions delete_missing origin target))} =
           (if delete_missing then {p. p \<in> path ` set target \<and> p \<notin> path ` set origin} else {})
       \<and> distinct (map snd (fst (sync_files_actions delete_missing origin target)))
       \<and> snd ` set (fst (sync_files_actions delete_missing origin target))
           \<subseteq> path ` set origin \<union> path ` set target
       \<and> snd (sync_files_actions delete_missing origin target) = None"
proof -
  note mem = sync_files_actions_member diff_member[OF assms]
  note some = listed_size_Some_iff[OF assms(1)] listed_size_Some_iff[OF assms(2)]
  have neq_None: "\<And>xs p. listed_size xs p \<noteq> None \<longleftrightarrow> p \<in> path ` set xs"
    by (simp add: listed_size_None_iff)
  have up: "{p. (Upload, p) \<in> set (fst (sync_files_actions delete_missing origin target))} =
           {p. p \<in> path ` set origin \<and> p \<notin> path ` set target} \<union>
           {p. \<exists>s\<in>set origin. \<exists>t\<in>set target.
                 path s = p \<and> path t = p \<and> size_bytes s \<noteq> size_bytes t}"
  proof (rule set_eqI)
    fix p
    have "(\<exists>x y. listed_size origin p = Some x \<and> listed_size target p = Some y \<and> x \<noteq> y) \<longleftrightarrow>
          (\<exists>s\<in>set origin. \<exists>t\<in>set target. path s = p \<and> path t = p \<and> size_bytes s \<noteq> size_bytes t)"
      unfolding some by blast
    then show "p \<in> {p. (Upload, p) \<in> set (fst (sync_files_actions delete_missing origin target))} \<longleftrightarrow>
          p \<in> {p. p \<in> path ` set origin \<and> p \<notin> path ` set target} \<union>
           {p. \<exists>s\<in>set origin. \<exists>t\<in>set target.
                 path s = p \<and> path t = p \<and> size_bytes s \<noteq> size_bytes t}"
      by (simp add: mem expected_Upload_iff neq_None listed_size_None_iff)
  qed
  have sk: "{p. (Skip, p) \<in> set (fst (sync_files_actions delete_missing origin target))} =
           {p. \<exists>s\<in>set origin. \<exists>t\<in>set target.
                 path s = p \<and> path t = p \<and> size_bytes s = size_bytes t}"
  proof (rule set_eqI)
    fix p
    have "(\<exists>x. listed_size origin p = Some x \<and> listed_size target p = Some x) \<longleftrightarrow>
          (\<exists>s\<in>set origin. \<exists>t\<in>set target. path s = p \<and> path t = p \<and> size_bytes s = size_bytes t)"
      unfolding some by metis
    then show "p \<in> {p. (Skip, p) \<in> set (fst (sync_files_actions delete_missing origin target))} \<longleftrightarrow>
          p \<in> {p. \<exists>s\<in>set origin. \<exists>t\<in>set target.
                 path s = p \<and> path t = p \<and> size_bytes s = size_bytes t}"
      by (simp add: mem expected_Skip_iff)
  qed
  have del: "{p. (Delete, p) \<in> set (fst (sync_files_actions delete_missing origin target))} =
           (if delete_missing then {p. p \<in> path ` set target \<and> p \<notin> path ` set origin} else {})"
    by (auto simp: mem expected_Delete_iff neq_None listed_size_None_iff)
  have dist: "distinct (map snd (fst (sync_files_actions delete_missing origin target)))"
    by (rule sync_files_actions_distinct[OF diff_distinct[OF assms]])
  have sub: "snd ` set (fst (sync_files_actions delete_missing origin target))
           \<subseteq> path ` set origin \<union> path ` set target"
  proof
    fix p assume "p \<in> snd ` set (fst (sync_files_actions delete_missing origin target))"
    then obtain k where "(k, p) \<in> set (fst (sync_files_actions delete_missing origin target))"
      by force
    then have "(k, p) \<in> set (fst (get_sync_actions origin target))"
      by (simp add: sync_files_actions_member)
    then show "p \<in> path ` set origin \<union> path ` set target" by (rule diff_paths_subset)
  qed
  have noerr: "snd (sync_files_actions delete_missing origin target) = None"
    by (simp add: sync_files_actions_def Let_def get_sync_actions_no_error)
  from up sk del dist sub noerr show ?thesis by (intro conjI)
qed

text \<open>The scenario of the specification's section 8, with the target-only file \<open>d.txt\<close>.\<close>

theorem sync_actions_exact_witness:
  "sorted_wrt (<) (map path
      [\<lparr>path = ''a.txt'', isdir = False, size_bytes = 10\<rparr>,
       \<lparr>path = ''b.txt'', isdir = False, size_bytes = 20\<rparr>,
       \<lparr>path = ''c.txt'', isdir = False, size_bytes = 5\<rparr>])
   \<and> sorted_wrt (<) (map path
      [\<lparr>path = ''a.txt'', isdir = False, size_bytes = 10\<rparr>,
       \<lparr>path = ''b.txt'', isdir = False, size_bytes = 99\<rparr>,
       \<lparr>path = ''d.txt'', isdir = False, size_bytes = 1\<rparr>])
   \<and> distinct (map snd (fst (sync_files_actions True
      [\<lparr>path = ''a.txt'', isdir = False, size_bytes = 10\<rparr>,
       \<lparr>path = ''b.txt'', isdir = False, size_bytes = 20\<rparr>,
       \<lparr>path = ''c.txt'', isdir = False, size_bytes = 5\<rparr>]
      [\<lparr>path = ''a.txt'', isdir = False, size_bytes = 10\<rparr>,
       \<lparr>path = ''b.txt'', isdir = False, size_bytes = 99\<rparr>,
       \<lparr>path = ''d.txt'', isdir = False, size_bytes = 1\<rparr>])))
   \<and> fst (sync_files_actions True
      [\<lparr>path = ''a.txt'', isdir = False, size_bytes = 10\<rparr>,
       \<lparr>path = ''b.txt'', isdir = False, size_bytes = 20\<rparr>,
       \<lparr>path = ''c.txt'', isdir = False, size_bytes = 5\<rparr>]
      [\<lparr>path = ''a.txt'', isdir = False, size_bytes = 10\<rparr>,
       \<lparr>path = ''b.txt'', isdir = False, size_bytes = 99\<rparr>,
       \<lparr>path = ''d.txt'', isdir = False, size_bytes = 1\<rparr>])
     = [(Skip, ''a.txt''), (Upload, ''b.txt''), (Upload, ''c.txt''), (Delete, ''d.txt'')]"
proof -
  let ?origin = "[\<lparr>path = ''a.txt'', isdir = False, size_bytes = 10\<rparr>,
       \<lparr>path = ''b.txt'', isdir = False, size_bytes = 20\<rparr>,
       \<lparr>path = ''c.txt'', isdir = False, size_bytes = 5\<rparr>]"
  let ?target = "[\<lparr>path = ''a.txt'', isdir = False, size_bytes = 10\<rparr>,
       \<lparr>path = ''b.txt'', isdir = False, size_bytes = 99\<rparr>,
       \<lparr>path = ''d.txt'', isdir = False, size_bytes = 1\<rparr>]"
  have so: "sorted_wrt (<) (map path ?origin)" by simp
  have st: "sorted_wrt (<) (map path ?target)" by simp
  have dist: "distinct (map snd (fst (sync_files_actions True ?origin ?target)))"
    using sync_actions_exact[OF so st, of True] by blast
  have run: "fst (sync_files_actions True ?origin ?target)
     = [(Skip, ''a.txt''), (Upload, ''b.txt''), (Upload, ''c.txt''), (Delete, ''d.txt'')]"
    by (simp add: sync_files_actions_def get_sync_actions_simps yield_def)
  from so st dist run show ?thesis by (intro conjI)
qed

text \<open>
  C10. From every state of the loop of \<open>_get_sync_actions\<close>, and so for every pair of
  listings, sorted or not, the generator ends without an exception: its only \<open>raise\<close> is the
  final \<open>else\<close>, which is therefore never reached, and every iteration yields an action.
\<close>

theorem get_sync_actions_never_raises:
  "snd (get_sync_actions source_files target_files) = None
   \<and> snd (sync_loop sfile source_files tfile target_files) = None"
  by (simp add: get_sync_actions_no_error sync_loop_no_error)

section \<open>Properties of the walk\<close>

lemma walk_files_no_directories:
  "node \<in> set (walk_files fs dirpath sort_flag max_depth) \<Longrightarrow> \<not> isdir node"
  by (simp add: walk_files_def)

text \<open>
  C2. \<open>walk_files\<close> yields files only, but not always in increasing path order. Each
  directory's entries are sorted among themselves and a directory's files are yielded right
  after the directory, so the files below \<open>/a\<close> come before the sibling \<open>/a.txt\<close>, while the
  string \<open>/a.txt\<close> is smaller than \<open>/a/b\<close> (the character \<open>.\<close> precedes \<open>/\<close>). On the
  filesystem with the directory \<open>/a\<close>, the file \<open>/a/b\<close> and the file \<open>/a.txt\<close> the walk is
  \<open>/a/b\<close>, \<open>/a.txt\<close>, which is not sorted.
\<close>

theorem walk_files_not_path_sorted:
  "map path (walk_files [(''/a'', DirEntry), (''/a/b'', FileEntry ''x''), (''/a.txt'', FileEntry ''y'')]
       ''/'' True \<infinity>) = [''/a/b'', ''/a.txt'']
   \<and> ''/a.txt'' < ''/a/b''
   \<and> \<not> sorted_wrt (<) (map path
        (walk_files [(''/a'', DirEntry), (''/a/b'', FileEntry ''x''), (''/a.txt'', FileEntry ''y'')]
           ''/'' True \<infinity>))"
  by code_simp

section \<open>Properties of the action functions and of a sequential run\<close>

lemma logged_eq:
  "logged c f st = (r, st') \<longleftrightarrow>
     r = fst (f (world st)) \<and> st' = \<lparr>world = snd (f (world st)), trace = trace st @ [c]\<rparr>"
  by (auto simp: logged_def split: prod.splits)

lemma copy_attempts_append [simp]:
  "copy_attempts p (tr @ tr') = copy_attempts p tr + copy_attempts p tr'"
  by (simp add: copy_attempts_def)

lemma copy_attempts_Cons [simp]:
  "copy_attempts p (c # tr) = (if c = Call_copy_file p then 1 else 0) + copy_attempts p tr"
  by (simp add: copy_attempts_def)

lemma copy_attempts_Nil [simp]: "copy_attempts p [] = 0"
  by (simp add: copy_attempts_def)

text \<open>One iteration of the loop either ends the function or hands over to the remaining
  iterations, having made one call of \<open>copy_file\<close> and at most one of \<open>makedir\<close>.\<close>

lemma upload_loop_step:
  "\<exists>st'. (trace st' = trace st @ [Call_copy_file p]
            \<or> trace st' = trace st @ [Call_copy_file p, Call_makedir (dirname p)])
        \<and> (upload_loop env p (Suc n) st = upload_loop env p n st'
            \<or> (\<exists>r. upload_loop env p (Suc n) st = (r, st')))"
proof -
  obtain r st1 where c: "logged (Call_copy_file p) (copy_file env p p True) st = (r, st1)"
    by (cases "logged (Call_copy_file p) (copy_file env p p True) st")
  then have t1: "trace st1 = trace st @ [Call_copy_file p]" by (simp add: logged_eq)
  obtain r2 st2
    where m: "logged (Call_makedir (dirname p)) (target_makedir env (dirname p)) st1 = (r2, st2)"
    by (cases "logged (Call_makedir (dirname p)) (target_makedir env (dirname p)) st1")
  then have t2: "trace st2 = trace st @ [Call_copy_file p, Call_makedir (dirname p)]"
    using t1 by (simp add: logged_eq)
  have "upload_loop env p (Suc n) st = upload_loop env p n st1
        \<or> (\<exists>r. upload_loop env p (Suc n) st = (r, st1))
        \<or> upload_loop env p (Suc n) st = upload_loop env p n st2
        \<or> (\<exists>r. upload_loop env p (Suc n) st = (r, st2))"
    using c m by (cases r; cases r2) auto
  with t1 t2 show ?thesis by blast
qed

lemma upload_loop_attempts:
  "copy_attempts p (trace (snd (upload_loop env p n st))) \<le> copy_attempts p (trace st) + n"
proof (induction n arbitrary: st)
  case 0
  then show ?case by simp
next
  case (Suc n)
  from upload_loop_step[of st p env n] obtain st'
    where tr: "trace st' = trace st @ [Call_copy_file p]
            \<or> trace st' = trace st @ [Call_copy_file p, Call_makedir (dirname p)]"
      and res: "upload_loop env p (Suc n) st = upload_loop env p n st'
            \<or> (\<exists>r. upload_loop env p (Suc n) st = (r, st'))"
    by blast
  from tr have one: "copy_attempts p (trace st') = copy_attempts p (trace st) + 1" by auto
  from res show ?case
  proof
    assume "upload_loop env p (Suc n) st = upload_loop env p n st'"
    with Suc.IH[of st'] one show ?thesis by simp
  next
    assume "\<exists>r. upload_loop env p (Suc n) st = (r, st')"
    with one show ?thesis by auto
  qed
qed

lemma upload_loop_calls:
  "set (trace (snd (upload_loop env p n st)))
     \<subseteq> set (trace st) \<union> {Call_copy_file p, Call_makedir (dirname p)}"
proof (induction n arbitrary: st)
  case 0
  then show ?case by auto
next
  case (Suc n)
  from upload_loop_step[of st p env n] obtain st'
    where tr: "trace st' = trace st @ [Call_copy_file p]
            \<or> trace st' = trace st @ [Call_copy_file p, Call_makedir (dirname p)]"
      and res: "upload_loop env p (Suc n) st = upload_loop env p n st'
            \<or> (\<exists>r. upload_loop env p (Suc n) st = (r, st'))"
    by blast
  have sub: "set (trace st') \<subseteq> set (trace st) \<union> {Call_copy_file p, Call_makedir (dirname p)}"
  proof -
    from tr have "set (trace st') = set (trace st) \<union> {Call_copy_file p}
        \<or> set (trace st') = set (trace st) \<union> {Call_copy_file p, Call_makedir (dirname p)}"
      by (elim disjE) simp_all
    then show ?thesis by blast
  qed
  from res show ?case
  proof
    assume "upload_loop env p (Suc n) st = upload_loop env p n st'"
    with Suc.IH[of st'] sub show ?thesis by auto
  next
    assume "\<exists>r. upload_loop env p (Suc n) st = (r, st')"
    with sub show ?thesis by auto
  qed
qed

text \<open>A source file that is gone for good: every attempt fails with
  \<open>ResourceNotFoundError\<close>, nothing is repaired, and the loop runs out.\<close>

lemma upload_loop_exhausted:
  assumes inv: "\<And>w. stuck w \<Longrightarrow>
      fst (copy_file env p p True w) = Some ResourceNotFoundError
      \<and> \<not> source_exists env p (snd (copy_file env p p True w))
      \<and> \<not> source_hassyspath env p (snd (copy_file env p p True w))
      \<and> stuck (snd (copy_file env p p True w))"
    and "stuck (world st)"
  shows "fst (upload_loop env p n st) = Some (Exception ''Error uploading'')
       \<and> trace (snd (upload_loop env p n st)) = trace st @ replicate n (Call_copy_file p)
       \<and> stuck (world (snd (upload_loop env p n st)))"
  using assms(2)
proof (induction n arbitrary: st)
  case 0
  then show ?case by simp
next
  case (Suc n)
  let ?st1 = "\<lparr>world = snd (copy_file env p p True (world st)), trace = trace st @ [Call_copy_file p]\<rparr>"
  from inv[OF Suc.prems] have f: "fst (copy_file env p p True (world st)) = Some ResourceNotFoundError"
    and ne: "\<not> source_exists env p (world ?st1)" and ns: "\<not> source_hassyspath env p (world ?st1)"
    and st: "stuck (world ?st1)" by simp_all
  have l: "logged (Call_copy_file p) (copy_file env p p True) st = (Some ResourceNotFoundError, ?st1)"
    using f by (simp add: logged_eq)
  have "upload_loop env p (Suc n) st = upload_loop env p n ?st1"
    using ne ns by (simp add: l)
  with Suc.IH[OF st] show ?case by (simp add: replicate_app_Cons_same)
qed

lemma run_actions_append:
  "run_actions env (pre @ rest) st =
     (case run_actions env pre st of
        (Some e, st') \<Rightarrow> (Some e, st')
      | (None, st') \<Rightarrow> run_actions env rest st')"
  by (induction pre arbitrary: st) (auto split: prod.splits option.splits)

lemma mem_copy_file_missing_source:
  "map_of src p = None \<Longrightarrow> p \<noteq> ''/'' \<Longrightarrow>
   copy_file mem_sync_env p p True (src, tgt) = (Some ResourceNotFoundError, (src, tgt))"
  by (simp add: copy_file_def mem_sync_env_def mem_getcontents_def)

lemma mem_source_exists: "source_exists mem_sync_env p (src, tgt) = mem_exists src p"
  by (simp add: mem_sync_env_def)

lemma mem_source_hassyspath: "source_hassyspath mem_sync_env p w = False"
  by (simp add: mem_sync_env_def)

text \<open>
  C4, as the claim states it, fails: \<open>delete_file\<close> has no handler around \<open>remove\<close>. When the
  path is already absent, so that \<open>remove\<close> raises \<open>ResourceNotFoundError\<close>, \<open>delete_file\<close>
  raises it too and the sequential run ends with that error instead of a success.
\<close>

theorem delete_of_absent_path_fails:
  "delete_file mem_sync_env ''/gone.txt'' \<lparr>world = ([], []), trace = []\<rparr>
     = (Some ResourceNotFoundError, \<lparr>world = ([], []), trace = [Call_remove ''/gone.txt'']\<rparr>)
   \<and> sync_files mem_sync_env [] [\<lparr>path = ''/gone.txt'', isdir = False, size_bytes = 3\<rparr>] True
        \<lparr>world = ([], []), trace = []\<rparr>
     = (Inl ResourceNotFoundError, \<lparr>world = ([], []), trace = [Call_remove ''/gone.txt'']\<rparr>)"
  by code_simp

text \<open>
  C4, amended. \<open>delete_file\<close> and \<open>skip_file\<close> have no retry loop: \<open>skip_file\<close> calls no
  filesystem and returns, \<open>delete_file\<close> calls \<open>remove\<close> exactly once and its outcome and
  effect are those of that call. So an exception of \<open>remove\<close>, the one for an absent path
  included, is the exception of \<open>delete_file\<close>, and it ends a sequential run with that error.
\<close>

theorem delete_and_skip_single_shot:
  "trace (snd (delete_file env p st)) = trace st @ [Call_remove p]
   \<and> fst (delete_file env p st) = fst (target_remove env p (world st))
   \<and> world (snd (delete_file env p st)) = snd (target_remove env p (world st))
   \<and> skip_file q st = (None, st)
   \<and> (target_remove env (path t) (world st) = (Some e, w')
      \<longrightarrow> run_actions env ((Delete, path t) # rest) st
            = (Some e, \<lparr>world = w', trace = trace st @ [Call_remove (path t)]\<rparr>)
          \<and> sync_files env [] (t # ts) True st
            = (Inl e, \<lparr>world = w', trace = trace st @ [Call_remove (path t)]\<rparr>))"
  by (simp add: delete_file_def logged_def skip_file_def sync_files_def sync_files_actions_def
        get_sync_actions_simps yield_def split: prod.splits)

text \<open>An instance: the path to delete is a directory of the target, and \<open>remove\<close> raises
  \<open>ResourceInvalidError\<close>.\<close>

theorem delete_and_skip_single_shot_witness:
  "target_remove mem_sync_env ''/x'' ([], [(''/x'', DirEntry)])
     = (Some ResourceInvalidError, ([], [(''/x'', DirEntry)]))
   \<and> sync_files mem_sync_env [] [\<lparr>path = ''/x'', isdir = False, size_bytes = 0\<rparr>] True
        \<lparr>world = ([], [(''/x'', DirEntry)]), trace = []\<rparr>
     = (Inl ResourceInvalidError, \<lparr>world = ([], [(''/x'', DirEntry)]), trace = [Call_remove ''/x'']\<rparr>)"
proof -
  have h: "target_remove mem_sync_env ''/x'' ([], [(''/x'', DirEntry)])
     = (Some ResourceInvalidError, ([], [(''/x'', DirEntry)]))"
    by (simp add: mem_sync_env_def mem_remove_def)
  from delete_and_skip_single_shot[of mem_sync_env "''/x''"
      "\<lparr>world = ([], [(''/x'', DirEntry)]), trace = []\<rparr>" _
      "\<lparr>path = ''/x'', isdir = False, size_bytes = 0\<rparr>" ResourceInvalidError
      "([], [(''/x'', DirEntry)])" _ "[]"] h
  show ?thesis by simp
qed

text \<open>
  C9, as the claim states it, fails in sequential mode: the exception of the file whose
  retries ran out leaves the loop of \<open>sync_files\<close>, so the files after it are not
  transferred. Here the listing names \<open>/a\<close> and \<open>/b\<close> while \<open>/a\<close> has vanished from the
  origin: the run ends with the error of \<open>/a\<close>, no copy of \<open>/b\<close> is ever attempted and the
  target stays empty.
\<close>

theorem failed_upload_ends_sequential_run:
  "fst (sync_files mem_sync_env
      [\<lparr>path = ''/a'', isdir = False, size_bytes = 1\<rparr>, \<lparr>path = ''/b'', isdir = False, size_bytes = 1\<rparr>]
      [] False \<lparr>world = ([(''/b'', FileEntry ''x'')], []), trace = []\<rparr>)
     = Inl (Exception ''Error uploading'')
   \<and> world (snd (sync_files mem_sync_env
      [\<lparr>path = ''/a'', isdir = False, size_bytes = 1\<rparr>, \<lparr>path = ''/b'', isdir = False, size_bytes = 1\<rparr>]
      [] False \<lparr>world = ([(''/b'', FileEntry ''x'')], []), trace = []\<rparr>))
     = ([(''/b'', FileEntry ''x'')], [])
   \<and> copy_attempts ''/b'' (trace (snd (sync_files mem_sync_env
      [\<lparr>path = ''/a'', isdir = False, size_bytes = 1\<rparr>, \<lparr>path = ''/b'', isdir = False, size_bytes = 1\<rparr>]
      [] False \<lparr>world = ([(''/b'', FileEntry ''x'')], []), trace = []\<rparr>)))
     = 0"
proof -
  let ?st = "\<lparr>world = ([(''/b'', FileEntry ''x'')], []) :: memfs \<times> memfs, trace = []\<rparr>"
  have up: "fst (upload_loop mem_sync_env ''/a'' 100 ?st) = Some (Exception ''Error uploading'')
       \<and> trace (snd (upload_loop mem_sync_env ''/a'' 100 ?st)) = trace ?st @ replicate 100 (Call_copy_file ''/a'')
       \<and> world (snd (upload_loop mem_sync_env ''/a'' 100 ?st)) = ([(''/b'', FileEntry ''x'')], [])"
    by (rule upload_loop_exhausted[where stuck = "\<lambda>w. w = ([(''/b'', FileEntry ''x'')], [])"])
       (simp_all add: mem_copy_file_missing_source mem_source_exists mem_source_hassyspath mem_exists_def)
  obtain r st' where res: "upload_file mem_sync_env ''/a'' ?st = (r, st')"
    by (cases "upload_file mem_sync_env ''/a'' ?st")
  with up have r: "r = Some (Exception ''Error uploading'')"
    and tr: "trace st' = replicate 100 (Call_copy_file ''/a'')"
    and w: "world st' = ([(''/b'', FileEntry ''x'')], [])"
    by (simp_all add: upload_file_def)
  have acts: "sync_files_actions False
      [\<lparr>path = ''/a'', isdir = False, size_bytes = 1\<rparr>, \<lparr>path = ''/b'', isdir = False, size_bytes = 1\<rparr>] []
      = ([(Upload, ''/a''), (Upload, ''/b'')], None)"
    by (simp add: sync_files_actions_def get_sync_actions_simps yield_def)
  have "sync_files mem_sync_env
      [\<lparr>path = ''/a'', isdir = False, size_bytes = 1\<rparr>, \<lparr>path = ''/b'', isdir = False, size_bytes = 1\<rparr>]
      [] False ?st = (Inl (Exception ''Error uploading''), st')"
    by (simp add: sync_files_def acts res r)
  with tr w show ?thesis by (simp add: copy_attempts_def)
qed

text \<open>
  C9, amended. An attempt is one call of \<open>copy_file\<close> by \<open>upload_file\<close>.
  \<^item> \<open>upload_file\<close> makes at most 100 attempts, and calls nothing but \<open>copy_file\<close> for its
    path and \<open>makedir\<close> for the parent directory of that path.
  \<^item> An attempt that succeeds ends \<open>upload_file\<close>.
  \<^item> After an attempt that fails with \<open>ParentDirectoryMissingError\<close>, or with
    \<open>ResourceNotFoundError\<close> while the source has the file, the parent directory is created
    on the target and, if that succeeds, the remaining iterations follow.
  \<^item> After an attempt that fails with \<open>ResourceNotFoundError\<close> for a dangling symbolic link
    of the source, \<open>upload_file\<close> returns normally, the file not copied.
  \<^item> An exception of \<open>copy_file\<close> other than these two is raised at once.
  \<^item> When every attempt fails (here: the origin file is gone for good, so each attempt raises
    \<open>ResourceNotFoundError\<close> and there is nothing to repair), the 100 attempts are made and
    \<open>upload_file\<close> raises \<open>Exception('Error uploading ...')\<close>.
  \<^item> In a sequential run an exception of \<open>upload_file\<close> ends the run at that action: the
    actions before it stay applied and the actions after it are not executed.
  \<^item> The loop belongs to \<open>upload_file\<close> alone: \<open>delete_file\<close> makes its one call of
    \<open>remove\<close> and \<open>skip_file\<close> makes no call.
\<close>

theorem upload_file_bounded_retry:
  "copy_attempts p (trace (snd (upload_file env p st))) \<le> copy_attempts p (trace st) + 100
   \<and> set (trace (snd (upload_file env p st)))
        \<subseteq> set (trace st) \<union> {Call_copy_file p, Call_makedir (dirname p)}
   \<and> (fst (copy_file env p p True (world st)) = None
      \<longrightarrow> upload_loop env p (Suc n) st =
            (None, \<lparr>world = snd (copy_file env p p True (world st)),
                    trace = trace st @ [Call_copy_file p]\<rparr>))
   \<and> (fst (copy_file env p p True (world st)) = Some e1
        \<and> (e1 = ParentDirectoryMissingError
            \<or> e1 = ResourceNotFoundError
              \<and> source_exists env p (snd (copy_file env p p True (world st))))
        \<and> fst (target_makedir env (dirname p) (snd (copy_file env p p True (world st)))) = None
      \<longrightarrow> upload_loop env p (Suc n) st =
            upload_loop env p n
              \<lparr>world = snd (target_makedir env (dirname p) (snd (copy_file env p p True (world st)))),
               trace = trace st @ [Call_copy_file p, Call_makedir (dirname p)]\<rparr>)
   \<and> (fst (copy_file env p p True (world st)) = Some ResourceNotFoundError
        \<and> \<not> source_exists env p (snd (copy_file env p p True (world st)))
        \<and> source_hassyspath env p (snd (copy_file env p p True (world st)))
        \<and> bad_symlink env p (snd (copy_file env p p True (world st)))
      \<longrightarrow> upload_loop env p (Suc n) st =
            (None, \<lparr>world = snd (copy_file env p p True (world st)),
                    trace = trace st @ [Call_copy_file p]\<rparr>))
   \<and> (fst (copy_file env p p True (world st)) = Some e1
        \<and> e1 \<noteq> ParentDirectoryMissingError \<and> e1 \<noteq> ResourceNotFoundError
      \<longrightarrow> upload_loop env p (Suc n) st =
            (Some e1, \<lparr>world = snd (copy_file env p p True (world st)),
                       trace = trace st @ [Call_copy_file p]\<rparr>))
   \<and> ((\<forall>w. stuck w \<longrightarrow>
            fst (copy_file env p p True w) = Some ResourceNotFoundError
            \<and> \<not> source_exists env p (snd (copy_file env p p True w))
            \<and> \<not> source_hassyspath env p (snd (copy_file env p p True w))
            \<and> stuck (snd (copy_file env p p True w)))
        \<and> stuck (world st)
      \<longrightarrow> fst (upload_file env p st) = Some (Exception ''Error uploading'')
          \<and> copy_attempts p (trace (snd (upload_file env p st))) = copy_attempts p (trace st) + 100)
   \<and> (run_actions env before st0 = (None, st) \<and> upload_file env p st = (Some e, st')
      \<longrightarrow> run_actions env (before @ (Upload, p) # rest) st0 = (Some e, st'))
   \<and> trace (snd (delete_file env q st)) = trace st @ [Call_remove q]
   \<and> skip_file q st = (None, st)"
proof -
  have bound: "copy_attempts p (trace (snd (upload_file env p st))) \<le> copy_attempts p (trace st) + 100"
    unfolding upload_file_def by (rule upload_loop_attempts)
  have calls: "set (trace (snd (upload_file env p st)))
        \<subseteq> set (trace st) \<union> {Call_copy_file p, Call_makedir (dirname p)}"
    unfolding upload_file_def by (rule upload_loop_calls)
  have success: "fst (copy_file env p p True (world st)) = None
      \<longrightarrow> upload_loop env p (Suc n) st =
            (None, \<lparr>world = snd (copy_file env p p True (world st)),
                    trace = trace st @ [Call_copy_file p]\<rparr>)"
    by (cases "copy_file env p p True (world st)") (auto simp: logged_def)
  have repair: "fst (copy_file env p p True (world st)) = Some e1
        \<and> (e1 = ParentDirectoryMissingError
            \<or> e1 = ResourceNotFoundError
              \<and> source_exists env p (snd (copy_file env p p True (world st))))
        \<and> fst (target_makedir env (dirname p) (snd (copy_file env p p True (world st)))) = None
      \<longrightarrow> upload_loop env p (Suc n) st =
            upload_loop env p n
              \<lparr>world = snd (target_makedir env (dirname p) (snd (copy_file env p p True (world st)))),
               trace = trace st @ [Call_copy_file p, Call_makedir (dirname p)]\<rparr>"
    by (cases "copy_file env p p True (world st)") (auto simp: logged_def split: prod.splits)
  have symlink: "fst (copy_file env p p True (world st)) = Some ResourceNotFoundError
        \<and> \<not> source_exists env p (snd (copy_file env p p True (world st)))
        \<and> source_hassyspath env p (snd (copy_file env p p True (world st)))
        \<and> bad_symlink env p (snd (copy_file env p p True (world st)))
      \<longrightarrow> upload_loop env p (Suc n) st =
            (None, \<lparr>world = snd (copy_file env p p True (world st)),
                    trace = trace st @ [Call_copy_file p]\<rparr>)"
    by (cases "copy_file env p p True (world st)") (auto simp: logged_def)
  have other: "fst (copy_file env p p True (world st)) = Some e1
        \<and> e1 \<noteq> ParentDirectoryMissingError \<and> e1 \<noteq> ResourceNotFoundError
      \<longrightarrow> upload_loop env p (Suc n) st =
            (Some e1, \<lparr>world = snd (copy_file env p p True (world st)),
                       trace = trace st @ [Call_copy_file p]\<rparr>)"
    by (cases "copy_file env p p True (world st)") (auto simp: logged_def)
  have exhaust: "(\<forall>w. stuck w \<longrightarrow>
            fst (copy_file env p p True w) = Some ResourceNotFoundError
            \<and> \<not> source_exists env p (snd (copy_file env p p True w))
            \<and> \<not> source_hassyspath env p (snd (copy_file env p p True w))
            \<and> stuck (snd (copy_file env p p True w)))
        \<and> stuck (world st)
      \<longrightarrow> fst (upload_file env p st) = Some (Exception ''Error uploading'')
          \<and> copy_attempts p (trace (snd (upload_file env p st))) = copy_attempts p (trace st) + 100"
  proof
    assume a: "(\<forall>w. stuck w \<longrightarrow>
            fst (copy_file env p p True w) = Some ResourceNotFoundError
            \<and> \<not> source_exists env p (snd (copy_file env p p True w))
            \<and> \<not> source_hassyspath env p (snd (copy_file env p p True w))
            \<and> stuck (snd (copy_file env p p True w)))
        \<and> stuck (world st)"
    have "fst (upload_loop env p 100 st) = Some (Exception ''Error uploading'')
       \<and> trace (snd (upload_loop env p 100 st)) = trace st @ replicate 100 (Call_copy_file p)
       \<and> stuck (world (snd (upload_loop env p 100 st)))"
      by (rule upload_loop_exhausted[where stuck = stuck]) (use a in blast)+
    then show "fst (upload_file env p st) = Some (Exception ''Error uploading'')
          \<and> copy_attempts p (trace (snd (upload_file env p st))) = copy_attempts p (trace st) + 100"
      by (simp add: upload_file_def copy_attempts_def)
  qed
  have abort: "run_actions env before st0 = (None, st) \<and> upload_file env p st = (Some e, st')
      \<longrightarrow> run_actions env (before @ (Upload, p) # rest) st0 = (Some e, st')"
    by (simp add: run_actions_append)
  have del: "trace (snd (delete_file env q st)) = trace st @ [Call_remove q]"
    by (simp add: delete_file_def logged_def split: prod.splits)
  have skip: "skip_file q st = (None, st)" by (simp add: skip_file_def)
  from bound calls success repair symlink other exhaust abort del skip show ?thesis by (intro conjI)
qed

text \<open>
  Four instances.
  \<^item> Uploading a path the origin does not have: the 100 attempts are made and the exception
    is raised.
  \<^item> Uploading \<open>/d/f\<close> to a target that lacks \<open>/d\<close> and reports that with
    \<open>ResourceNotFoundError\<close>: the first attempt fails, \<open>/d\<close> is created, the second attempt
    copies the file.
  \<^item> Uploading a dangling symbolic link: one attempt, a normal return, nothing copied.
  \<^item> Uploading a path that is a directory of the origin: the \<open>ResourceInvalidError\<close> of the
    one attempt is raised.
\<close>

theorem upload_file_bounded_retry_witness:
  "fst (upload_file mem_sync_env ''/a'' \<lparr>world = ([], []), trace = []\<rparr>)
     = Some (Exception ''Error uploading'')
   \<and> copy_attempts ''/a'' (trace (snd (upload_file mem_sync_env ''/a'' \<lparr>world = ([], []), trace = []\<rparr>)))
     = 100
   \<and> upload_file notfound_sync_env ''/d/f''
        \<lparr>world = ([(''/d'', DirEntry), (''/d/f'', FileEntry ''data'')], []), trace = []\<rparr>
     = (None,
        \<lparr>world = ([(''/d'', DirEntry), (''/d/f'', FileEntry ''data'')],
                  [(''/d'', DirEntry), (''/d/f'', FileEntry ''data'')]),
         trace = [Call_copy_file ''/d/f'', Call_makedir ''/d'', Call_copy_file ''/d/f'']\<rparr>)
   \<and> upload_file dangling_sync_env ''/link'' \<lparr>world = ([], []), trace = []\<rparr>
     = (None, \<lparr>world = ([], []), trace = [Call_copy_file ''/link'']\<rparr>)
   \<and> upload_file mem_sync_env ''/d'' \<lparr>world = ([(''/d'', DirEntry)], []), trace = []\<rparr>
     = (Some ResourceInvalidError,
        \<lparr>world = ([(''/d'', DirEntry)], []), trace = [Call_copy_file ''/d'']\<rparr>)"
proof -
  have inv: "\<forall>w. map_of (fst w) ''/a'' = None \<longrightarrow>
            fst (copy_file mem_sync_env ''/a'' ''/a'' True w) = Some ResourceNotFoundError
            \<and> \<not> source_exists mem_sync_env ''/a'' (snd (copy_file mem_sync_env ''/a'' ''/a'' True w))
            \<and> \<not> source_hassyspath mem_sync_env ''/a'' (snd (copy_file mem_sync_env ''/a'' ''/a'' True w))
            \<and> map_of (fst (snd (copy_file mem_sync_env ''/a'' ''/a'' True w))) ''/a'' = None"
    by (auto simp: mem_copy_file_missing_source mem_source_exists mem_source_hassyspath mem_exists_def)
  have start: "map_of (fst (world \<lparr>world = ([], []) :: memfs \<times> memfs, trace = []\<rparr>)) ''/a'' = None"
    by simp
  from upload_file_bounded_retry[where p = "''/a''" and env = mem_sync_env
      and st = "\<lparr>world = ([], []), trace = []\<rparr>"
      and stuck = "\<lambda>w. map_of (fst w) ''/a'' = None"] inv start
  have exhausted: "fst (upload_file mem_sync_env ''/a'' \<lparr>world = ([], []), trace = []\<rparr>)
     = Some (Exception ''Error uploading'')
   \<and> copy_attempts ''/a'' (trace (snd (upload_file mem_sync_env ''/a'' \<lparr>world = ([], []), trace = []\<rparr>)))
     = 100"
    by simp
  let ?src = "[(''/d'', DirEntry), (''/d/f'', FileEntry ''data'')] :: memfs"
  let ?st = "\<lparr>world = (?src, [] :: memfs), trace = []\<rparr>"
  let ?st2 = "\<lparr>world = (?src, [(''/d'', DirEntry)] :: memfs),
               trace = [Call_copy_file ''/d/f'', Call_makedir ''/d'']\<rparr>"
  have c1: "copy_file notfound_sync_env ''/d/f'' ''/d/f'' True (?src, [])
              = (Some ResourceNotFoundError, (?src, []))"
    by code_simp
  have x1: "source_exists notfound_sync_env ''/d/f'' (?src, [])" by code_simp
  have d1: "dirname ''/d/f'' = ''/d''" by code_simp
  have m1: "target_makedir notfound_sync_env ''/d'' (?src, []) = (None, (?src, [(''/d'', DirEntry)]))"
    by code_simp
  have c2: "copy_file notfound_sync_env ''/d/f'' ''/d/f'' True (?src, [(''/d'', DirEntry)])
              = (None, (?src, [(''/d'', DirEntry), (''/d/f'', FileEntry ''data'')]))"
    by code_simp
  from upload_file_bounded_retry[where p = "''/d/f''" and env = notfound_sync_env and st = ?st
      and n = 99 and ?e1.0 = ResourceNotFoundError] c1 x1 d1 m1
  have first: "upload_loop notfound_sync_env ''/d/f'' (Suc 99) ?st
                 = upload_loop notfound_sync_env ''/d/f'' 99 ?st2"
    by simp
  from upload_file_bounded_retry[where p = "''/d/f''" and env = notfound_sync_env and st = ?st2
      and n = 98] c2
  have second: "upload_loop notfound_sync_env ''/d/f'' (Suc 98) ?st2
                 = (None, \<lparr>world = (?src, [(''/d'', DirEntry), (''/d/f'', FileEntry ''data'')]),
                           trace = [Call_copy_file ''/d/f'', Call_makedir ''/d'', Call_copy_file ''/d/f'']\<rparr>)"
    by simp
  have repaired: "upload_file notfound_sync_env ''/d/f'' ?st
     = (None, \<lparr>world = (?src, [(''/d'', DirEntry), (''/d/f'', FileEntry ''data'')]),
               trace = [Call_copy_file ''/d/f'', Call_makedir ''/d'', Call_copy_file ''/d/f'']\<rparr>)"
    using first second by (simp add: upload_file_def)
  let ?e = "\<lparr>world = ([], []) :: memfs \<times> memfs, trace = []\<rparr>"
  have c3: "copy_file dangling_sync_env ''/link'' ''/link'' True ([], [])
              = (Some ResourceNotFoundError, ([], []))"
    by code_simp
  have x3: "\<not> source_exists dangling_sync_env ''/link'' ([], [])" by code_simp
  have h3: "source_hassyspath dangling_sync_env ''/link'' ([], [])" by code_simp
  have b3: "bad_symlink dangling_sync_env ''/link'' ([], [])" by code_simp
  from upload_file_bounded_retry[where p = "''/link''" and env = dangling_sync_env and st = ?e
      and n = 99] c3 x3 h3 b3
  have "upload_loop dangling_sync_env ''/link'' (Suc 99) ?e
          = (None, \<lparr>world = ([], []), trace = [Call_copy_file ''/link'']\<rparr>)"
    by simp
  then have skipped: "upload_file dangling_sync_env ''/link'' ?e
     = (None, \<lparr>world = ([], []), trace = [Call_copy_file ''/link'']\<rparr>)"
    by (simp add: upload_file_def)
  let ?d = "\<lparr>world = ([(''/d'', DirEntry)], []) :: memfs \<times> memfs, trace = []\<rparr>"
  have c4: "copy_file mem_sync_env ''/d'' ''/d'' True ([(''/d'', DirEntry)], [])
              = (Some ResourceInvalidError, ([(''/d'', DirEntry)], []))"
    by code_simp
  from upload_file_bounded_retry[where p = "''/d''" and env = mem_sync_env and st = ?d
      and n = 99 and ?e1.0 = ResourceInvalidError] c4
  have "upload_loop mem_sync_env ''/d'' (Suc 99) ?d
          = (Some ResourceInvalidError,
             \<lparr>world = ([(''/d'', DirEntry)], []), trace = [Call_copy_file ''/d'']\<rparr>)"
    by simp
  then have raised: "upload_file mem_sync_env ''/d'' ?d
     = (Some ResourceInvalidError,
        \<lparr>world = ([(''/d'', DirEntry)], []), trace = [Call_copy_file ''/d'']\<rparr>)"
    by (simp add: upload_file_def)
  from exhausted repaired skipped raised show ?thesis by (intro conjI) simp_all
qed
section \<open>Running the sync twice\<close>

text \<open>While the filesystem stays the same, the generator \<open>walk_files\<close> yields the nodes of
  the list \<open>walk_files\<close> above, one for each \<open>next\<close>.\<close>

lemma walk_files_next_yields:
  "walk_files_next fs sort_flag gen = (r, gen') \<Longrightarrow>
     (case r of
        None \<Rightarrow> filter (\<lambda>node. \<not> isdir node) (pending fs sort_flag gen) = []
      | Some node \<Rightarrow>
          \<not> isdir node
          \<and> filter (\<lambda>node. \<not> isdir node) (pending fs sort_flag gen)
              = node # filter (\<lambda>node. \<not> isdir node) (pending fs sort_flag gen'))"
proof (induction fs sort_flag gen arbitrary: r gen' rule: walk_files_next.induct)
  case (1 fs sort_flag gen)
  obtain r1 gen1 where n: "walk_fs_next fs sort_flag gen = (r1, gen1)"
    by (cases "walk_fs_next fs sort_flag gen")
  note p = walk_fs_next_pending[OF n]
  show ?case
  proof (cases r1)
    case None
    with n "1.prems" p show ?thesis by (simp add: walk_files_next.simps[of fs sort_flag gen])
  next
    case (Some node)
    show ?thesis
    proof (cases "isdir node")
      case True
      with n Some "1.prems" have "walk_files_next fs sort_flag gen1 = (r, gen')"
        by (simp add: walk_files_next.simps[of fs sort_flag gen])
      from "1.IH"[OF n[symmetric] _ _ this] Some True p show ?thesis
        by (cases r) simp_all
    next
      case False
      with n Some "1.prems" p show ?thesis
        by (auto simp: walk_files_next.simps[of fs sort_flag gen])
    qed
  qed
qed

lemma walk_files_generator_start:
  "filter (\<lambda>node. \<not> isdir node) (pending fs sort_flag [Todo dirpath max_depth])
     = walk_files fs dirpath sort_flag max_depth"
  by (simp add: pending_def walk_files_def)

text \<open>
  C3. \<open>sync_fs\<close> is to make the target like the source, and a second run is then to find
  nothing to do. It does not, because its listings are not in path order (the defect of
  \<open>walk_files\<close> above) while the diff compares paths as if they were. The origin has the
  file \<open>/a.txt\<close>; the target has the same file and a file \<open>/a/b\<close>. The walk of the target
  yields \<open>/a/b\<close> before \<open>/a.txt\<close>, so the first run, with \<open>delete_missing\<close>, uploads
  \<open>/a.txt\<close>, deletes \<open>/a/b\<close> and then deletes \<open>/a.txt\<close>. Every action succeeds and the run
  returns \<open>True\<close>, the target has lost \<open>/a.txt\<close>, and the second run uploads it: its diff is
  an \<open>Upload\<close>, not a \<open>Skip\<close>.
\<close>

theorem sync_twice_not_idempotent:
  "sync_fs [(''/a.txt'', FileEntry ''y'')]
           [(''/a'', DirEntry), (''/a/b'', FileEntry ''x''), (''/a.txt'', FileEntry ''y'')] True
     = Some (Inr True,
        \<lparr>world = ([(''/a.txt'', FileEntry ''y'')], [(''/a'', DirEntry)]),
         trace = [Call_copy_file ''/a.txt'', Call_remove ''/a/b'', Call_remove ''/a.txt'']\<rparr>)
   \<and> sync_fs [(''/a.txt'', FileEntry ''y'')] [(''/a'', DirEntry)] True
     = Some (Inr True,
        \<lparr>world = ([(''/a.txt'', FileEntry ''y'')], [(''/a'', DirEntry), (''/a.txt'', FileEntry ''y'')]),
         trace = [Call_copy_file ''/a.txt'']\<rparr>)
   \<and> fst (sync_files_actions True
            (walk_files [(''/a.txt'', FileEntry ''y'')] ''/'' True \<infinity>)
            (walk_files [(''/a'', DirEntry)] ''/'' True \<infinity>))
     = [(Upload, ''/a.txt'')]"
  by code_simp

text \<open>
  The same defect with a target that is listed while it changes. The origin has \<open>/a-b/x\<close>,
  the target has \<open>/a/y\<close> and an empty directory \<open>/a-b\<close>. The walk of the target is at
  \<open>/a/y\<close> when \<open>/a-b/x\<close> is uploaded, enters \<open>/a-b\<close> afterwards, finds the new file there,
  and the diff, whose origin listing is exhausted by then, deletes it. Without
  \<open>delete_missing\<close> the file stays.
\<close>

lemma sync_fs_deletes_the_file_it_uploaded:
  "sync_fs [(''/a-b'', DirEntry), (''/a-b/x'', FileEntry ''y'')]
           [(''/a'', DirEntry), (''/a/y'', FileEntry ''y''), (''/a-b'', DirEntry)] True
     = Some (Inr True,
        \<lparr>world = ([(''/a-b'', DirEntry), (''/a-b/x'', FileEntry ''y'')],
                  [(''/a'', DirEntry), (''/a-b'', DirEntry)]),
         trace = [Call_copy_file ''/a-b/x'', Call_remove ''/a/y'', Call_remove ''/a-b/x'']\<rparr>)
   \<and> sync_fs [(''/a-b'', DirEntry), (''/a-b/x'', FileEntry ''y'')]
           [(''/a'', DirEntry), (''/a/y'', FileEntry ''y''), (''/a-b'', DirEntry)] False
     = Some (Inr True,
        \<lparr>world = ([(''/a-b'', DirEntry), (''/a-b/x'', FileEntry ''y'')],
                  [(''/a'', DirEntry), (''/a/y'', FileEntry ''y''), (''/a-b'', DirEntry),
                   (''/a-b/x'', FileEntry ''y'')]),
         trace = [Call_copy_file ''/a-b/x'']\<rparr>)"
  by code_simp
section \<open>Properties of the layered filesystem\<close>

lemma only_layer_refl [simp]: "only_layer i m m"
proof -
  have "m = m\<lparr>fs_sequence := (fs_sequence m)[i := fs_sequence m ! i]\<rparr>" by simp
  then show ?thesis unfolding only_layer_def by blast
qed

lemma only_layer_trans: "only_layer i m m1 \<Longrightarrow> only_layer i m1 m2 \<Longrightarrow> only_layer i m m2"
  by (auto simp: only_layer_def)

lemma only_layer_writefs: "only_layer i m m' \<Longrightarrow> writefs m' = writefs m"
  by (auto simp: only_layer_def)

lemma only_layer_on_layer: "only_layer i m (snd (on_layer i f m))"
  by (auto simp: only_layer_def on_layer_def split: prod.splits)


lemma only_layer_autocreate:
  assumes op: "\<And>m0. only_layer i m0 (snd (operation m0))" and w: "writefs m = Attribute (Some i)"
  shows "only_layer i m (snd (autocreate_missing_writefs_directory ops p mode operation m))"
proof -
  obtain r m1 where o: "operation m = (r, m1)" by (cases "operation m")
  with op[of m] have l1: "only_layer i m m1" by simp
  then have w1: "writefs m1 = Attribute (Some i)" using w by (simp add: only_layer_writefs)
  obtain ex m2 where e: "on_layer i (b_exists ops (dirname p)) m1 = (ex, m2)"
    by (cases "on_layer i (b_exists ops (dirname p)) m1")
  with only_layer_on_layer[of i m1 "b_exists ops (dirname p)"] have l2: "only_layer i m m2"
    using l1 by (auto intro: only_layer_trans)
  obtain r3 m3 where k: "on_layer i (b_makedir ops (dirname p) True True) m2 = (r3, m3)"
    by (cases "on_layer i (b_makedir ops (dirname p) True True) m2")
  with only_layer_on_layer[of i m2 "b_makedir ops (dirname p) True True"] have l3: "only_layer i m m3"
    using l2 by (auto intro: only_layer_trans)
  have "snd (autocreate_missing_writefs_directory ops p mode operation m) \<in> {m1, m2, m3}"
    using o w1 e k
    by (auto simp: autocreate_missing_writefs_directory_def Let_def split: sum.splits if_splits bool.splits)
  with l1 l2 l3 show ?thesis by auto
qed

lemma only_layer_retry:
  assumes op: "\<And>m0. only_layer i m0 (snd (operation m0))" and "only_layer i m (snd outcome)"
  shows "only_layer i m (snd (retry_on_created operation outcome))"
proof (cases outcome)
  case (Pair r m1)
  with assms(2) have l1: "only_layer i m m1" by simp
  from op[of m1] l1 have "only_layer i m (snd (operation m1))" by (rule only_layer_trans[rotated])
  with l1 Pair show ?thesis by (auto simp: retry_on_created_def split: sum.splits)
qed

lemma only_layer_super_open:
  "writefs m = Attribute (Some i) \<Longrightarrow> write_mode mode \<Longrightarrow> only_layer i m (snd (super_open ops p mode m))"
  by (simp add: super_open_def only_layer_on_layer)

text \<open>With \<open>writefs\<close> set to \<open>None\<close>, \<open>makedir\<close>, \<open>remove\<close>, \<open>setcontents\<close> and \<open>open\<close> in a
  write mode raise \<open>OperationFailedError\<close> with the message \<open>No writeable FS set\<close> and leave
  the object as it was.\<close>

lemma MultiFS_without_write_layer:
  assumes n: "writefs m = Attribute None"
  shows "MultiFS_makedir ops p recursive allow_recreate m
           = (Inl (OperationFailedError ''makedir'' ''No writeable FS set''), m)"
    and "MultiFS_remove ops p m = (Inl (OperationFailedError ''remove'' ''No writeable FS set''), m)"
    and "MultiFS_setcontents ops p data m
           = (Inl (OperationFailedError ''setcontents'' ''No writeable FS set''), m)"
    and "write_mode mode \<Longrightarrow>
         MultiFS_open ops p mode m = (Inl (OperationFailedError ''open'' ''No writeable FS set''), m)"
  using n
  by (simp_all add: MultiFS_makedir_def MultiFS_remove_def MultiFS_setcontents_def MultiFS_open_def
        super_open_def autocreate_missing_writefs_directory_def retry_on_created_def)

text \<open>With the write layer \<open>i\<close>, \<open>makedir\<close> and \<open>remove\<close> are the methods of that layer, with
  their results and effects, and a \<open>setcontents\<close> or an \<open>open\<close> in a write mode that succeeds on
  that layer is that call.\<close>

lemma MultiFS_write_reaches_write_layer:
  assumes w: "writefs m = Attribute (Some i)"
  shows "MultiFS_makedir ops p recursive allow_recreate m
           = on_layer i (b_makedir ops p recursive allow_recreate) m"
    and "MultiFS_remove ops p m = on_layer i (b_remove ops p) m"
    and "b_setcontents ops p data (fs_sequence m ! i) = (Inr v, s1) \<Longrightarrow>
         MultiFS_setcontents ops p data m = (Inr v, m\<lparr>fs_sequence := (fs_sequence m)[i := s1]\<rparr>)"
    and "write_mode mode \<Longrightarrow> b_open ops p mode (fs_sequence m ! i) = (Inr h, s1) \<Longrightarrow>
         MultiFS_open ops p mode m = (Inr h, m\<lparr>fs_sequence := (fs_sequence m)[i := s1]\<rparr>)"
  using w
  by (simp_all add: MultiFS_makedir_def MultiFS_remove_def MultiFS_setcontents_def MultiFS_open_def
        super_open_def autocreate_missing_writefs_directory_def retry_on_created_def on_layer_def)

text \<open>With the write layer \<open>i\<close>, each of the four returns an object that differs from the one
  it started on in the state of layer \<open>i\<close> at most. This holds for every class of layers, also
  one whose methods record every call in the layer's state, so no method of another layer is
  called.\<close>

lemma MultiFS_writes_only_write_layer:
  assumes w: "writefs m = Attribute (Some i)"
  shows "only_layer i m (snd (MultiFS_makedir ops p recursive allow_recreate m))"
    and "only_layer i m (snd (MultiFS_remove ops p m))"
    and "only_layer i m (snd (MultiFS_setcontents ops p data m))"
    and "write_mode mode \<Longrightarrow> only_layer i m (snd (MultiFS_open ops p mode m))"
proof -
  show "only_layer i m (snd (MultiFS_makedir ops p recursive allow_recreate m))"
    using w by (simp add: MultiFS_makedir_def only_layer_on_layer)
  show "only_layer i m (snd (MultiFS_remove ops p m))"
    using w by (simp add: MultiFS_remove_def only_layer_on_layer)
  show "only_layer i m (snd (MultiFS_setcontents ops p data m))"
    using w
    by (simp add: MultiFS_setcontents_def only_layer_retry only_layer_autocreate only_layer_on_layer)
  show "only_layer i m (snd (MultiFS_open ops p mode m))" if wm: "write_mode mode"
  proof -
    have op: "\<And>m0. writefs m0 = Attribute (Some i) \<Longrightarrow> only_layer i m0 (snd (super_open ops p mode m0))"
      using wm by (simp add: only_layer_super_open)
    have op': "\<And>m0. only_layer i m0 (snd (on_layer i (b_open ops p mode) m0))"
      by (rule only_layer_on_layer)
    have eq: "\<And>m0. writefs m0 = Attribute (Some i) \<Longrightarrow> super_open ops p mode m0 = on_layer i (b_open ops p mode) m0"
      using wm by (simp add: super_open_def)
    have a: "autocreate_missing_writefs_directory ops p mode (super_open ops p mode) m
           = autocreate_missing_writefs_directory ops p mode (on_layer i (b_open ops p mode)) m"
      using w by (simp add: autocreate_missing_writefs_directory_def eq)
    have l: "only_layer i m (snd (autocreate_missing_writefs_directory ops p mode (on_layer i (b_open ops p mode)) m))"
      by (rule only_layer_autocreate[OF op' w])
    obtain r m1 where o: "autocreate_missing_writefs_directory ops p mode (on_layer i (b_open ops p mode)) m = (r, m1)"
      by (cases "autocreate_missing_writefs_directory ops p mode (on_layer i (b_open ops p mode)) m")
    with l have l1: "only_layer i m m1" by simp
    then have w1: "writefs m1 = Attribute (Some i)" using w by (simp add: only_layer_writefs)
    have "only_layer i m (snd (super_open ops p mode m1))"
      using l1 op[OF w1] by (rule only_layer_trans)
    with l1 o a show ?thesis
      by (auto simp: MultiFS_open_def retry_on_created_def split: sum.splits)
  qed
qed

text \<open>
  C7. The routing half of the claim holds: with a write layer, every write goes to that layer
  and to no other (the two lemmas above). The other half fails on the object the constructor
  builds. The guards of \<open>makedir\<close>, \<open>remove\<close> and \<open>setcontents\<close> test \<open>self.writefs is None\<close>
  in order to raise \<open>OperationFailedError\<close> with \<open>No writeable FS set\<close>, but \<open>__init__\<close> assigns
  \<open>self.write_fs\<close> and never \<open>self.writefs\<close>. On a \<open>MultiFS\<close> for which no write layer has
  been configured the attribute is therefore not set, and each of the three calls ends in the
  guard itself with \<open>AttributeError\<close> instead of the error the guard was written to raise.
\<close>

theorem MultiFS_without_writefs_raises_AttributeError:
  "writefs (MultiFS_init :: memfs MultiFS) = Unset
   \<and> write_fs (MultiFS_init :: memfs MultiFS) = None
   \<and> MultiFS_makedir (mem_backend ResourceNotFoundError) ''/d'' False False MultiFS_init
       = (Inl (AttributeError ''writefs''), MultiFS_init)
   \<and> MultiFS_remove (mem_backend ResourceNotFoundError) ''/f'' MultiFS_init
       = (Inl (AttributeError ''writefs''), MultiFS_init)
   \<and> MultiFS_setcontents (mem_backend ResourceNotFoundError) ''/f'' ''data'' MultiFS_init
       = (Inl (AttributeError ''writefs''), MultiFS_init)"
  by (simp add: MultiFS_init_def MultiFS_makedir_def MultiFS_remove_def MultiFS_setcontents_def)






section \<open>Properties of the caching wrapper\<close>

text \<open>
  The cache filesystem is the reference filesystem, raising \<open>ResourceNotFoundError\<close> for a
  write below a missing directory, as the local-disk filesystem used for caches does. The
  wrapped filesystem is of any class.
\<close>

lemma on_cache_eq:
  "on_cache f cf = (r, cf') \<longleftrightarrow>
     r = fst (f (cachefs cf)) \<and> cf' = cf\<lparr>cachefs := snd (f (cachefs cf))\<rparr>"
  by (auto simp: on_cache_def split: prod.splits)

lemma on_source_eq:
  "on_source c f cf = (r, cf') \<longleftrightarrow>
     r = fst (f (wrapped_fs cf))
     \<and> cf' = cf\<lparr>wrapped_fs := snd (f (wrapped_fs cf)), fs_calls := fs_calls cf @ [c]\<rparr>"
  by (auto simp: on_source_def split: prod.splits)

lemma write_mode_rb [simp]: "\<not> write_mode ''rb''" "write_mode ''wb''"
  by (simp_all add: write_mode_def)

lemma mem_b_open_read:
  "\<not> write_mode mode \<Longrightarrow> b_open (mem_backend missing) p mode c = (mem_getcontents c p, c)"
  by (simp add: mem_backend_def mem_open_def write_mode_def)

lemma mem_b_open_wb:
  "b_open (mem_backend missing) p ''wb'' c =
     (case mem_setcontents missing c p [] of Inl e \<Rightarrow> (Inl e, c) | Inr c' \<Rightarrow> (Inr [], c'))"
  by (simp add: mem_backend_def mem_open_def)

lemma mem_setcontents_Inr:
  "mem_setcontents missing c p d = Inr c' \<Longrightarrow>
   c' = AList.update p (FileEntry d) c \<and> mem_isdir c (dirname p) \<and> \<not> mem_isdir c p"
  by (auto simp: mem_setcontents_def split: if_splits)

lemma mem_isdir_update_file:
  "mem_isdir c d \<Longrightarrow> \<not> mem_isdir c p \<Longrightarrow> mem_isdir (AList.update p (FileEntry x) c) d"
  by (auto simp: mem_isdir_def update_conv')

lemma mem_getcontents_file: "map_of c p = Some (FileEntry d) \<Longrightarrow> mem_getcontents c p = Inr d"
  by (simp add: mem_getcontents_def)

lemma mem_getcontents_not_file:
  "\<not> mem_isfile c p \<Longrightarrow> \<exists>e. mem_getcontents c p = Inl e"
  by (auto simp: mem_getcontents_def mem_isfile_def split: option.splits entry.splits)

text \<open>What a successful \<open>open(path, 'wb')\<close> on the cache, with or without the creation of
  the directory, leaves behind.\<close>

lemma open_new_file_mem:
  assumes "open_new_file (mem_backend ResourceNotFoundError) p cf = (Inr nf, cf3)"
  shows "\<exists>c3. cf3 = cf\<lparr>cachefs := c3\<rparr> \<and> map_of c3 p = Some (FileEntry [])
              \<and> mem_isdir c3 (dirname p) \<and> \<not> mem_isdir c3 p"
proof -
  let ?mem = "mem_backend ResourceNotFoundError"
  have fin: "\<exists>c3. cf0\<lparr>cachefs := c'\<rparr> = cf\<lparr>cachefs := c3\<rparr> \<and> map_of c3 p = Some (FileEntry [])
              \<and> mem_isdir c3 (dirname p) \<and> \<not> mem_isdir c3 p"
    if "mem_setcontents ResourceNotFoundError c p [] = Inr c'" and "cf0\<lparr>cachefs := c'\<rparr> = cf\<lparr>cachefs := c'\<rparr>"
    for c c' and cf0 :: "('a, memfs) CacheFS"
  proof -
    from mem_setcontents_Inr[OF that(1)]
    have c': "c' = AList.update p (FileEntry []) c" and d: "mem_isdir c (dirname p)"
      and nd: "\<not> mem_isdir c p" by simp_all
    have "map_of c' p = Some (FileEntry [])" by (simp add: c' update_conv')
    moreover have "mem_isdir c' (dirname p)" unfolding c' using d nd by (rule mem_isdir_update_file)
    moreover have "\<not> mem_isdir c' p" using nd by (auto simp: c' mem_isdir_def update_conv')
    ultimately show ?thesis using that(2) by blast
  qed
  show ?thesis
  proof (cases "mem_setcontents ResourceNotFoundError (cachefs cf) p []")
    case (Inr c')
    with assms have "cf3 = cf\<lparr>cachefs := c'\<rparr>"
      by (simp add: open_new_file_def on_cache_def mem_b_open_wb)
    with fin[OF Inr, of cf] show ?thesis by simp
  next
    case (Inl e)
    then have first: "on_cache (b_open ?mem p ''wb'') cf = (Inl e, cf)"
      by (simp add: on_cache_def mem_b_open_wb)
    with assms have e: "e = ResourceNotFoundError"
      by (auto simp: open_new_file_def split: if_splits)
    obtain r2 cf2 where mk: "on_cache (b_makedir ?mem (dirname p) True True) cf = (r2, cf2)"
      by (cases "on_cache (b_makedir ?mem (dirname p) True True) cf")
    then have cf2: "cf2 = cf\<lparr>cachefs := cachefs cf2\<rparr>" by (auto simp: on_cache_eq)
    from assms first e mk have second: "on_cache (b_open ?mem p ''wb'') cf2 = (Inr nf, cf3)"
      by (auto simp: open_new_file_def split: sum.splits)
    then obtain c' where s: "mem_setcontents ResourceNotFoundError (cachefs cf2) p [] = Inr c'"
      and cf3: "cf3 = cf2\<lparr>cachefs := c'\<rparr>"
      by (auto simp: on_cache_def mem_b_open_wb split: sum.splits)
    have "cf2\<lparr>cachefs := c'\<rparr> = cf\<lparr>cachefs := c'\<rparr>" by (subst cf2) simp
    from fin[OF s this] cf3 show ?thesis by simp
  qed
qed

lemma CacheFS_open_hit:
  assumes "\<not> write_mode mode" and "map_of (cachefs cf) (normpath P) = Some (FileEntry data)"
  shows "CacheFS_open src (mem_backend missing) normpath P mode cf
           = (Inr (OpenFile Cache mode data), cf)"
  using assms
  by (simp add: CacheFS_open_def on_cache_def mem_b_open_read mem_getcontents_file)

lemma CacheFS_open_miss:
  assumes rm: "\<not> write_mode mode"
    and miss: "\<not> mem_isfile (cachefs cf) (normpath P)"
    and ok: "CacheFS_open src (mem_backend ResourceNotFoundError) normpath P mode cf = (Inr f, cf')"
  shows "\<exists>data. b_open src (normpath P) ''rb'' (wrapped_fs cf) = (Inr data, wrapped_fs cf')
          \<and> fs_calls cf' = fs_calls cf @ [Call_open (normpath P) ''rb'']
          \<and> map_of (cachefs cf') (normpath P) = Some (FileEntry data)
          \<and> mem_isdir (cachefs cf') (dirname (normpath P))
          \<and> f = OpenFile (if mode = ''rb'' then Source else Cache) mode data"
proof -
  let ?mem = "mem_backend ResourceNotFoundError"
  let ?p = "normpath P"
  from mem_getcontents_not_file[OF miss] obtain e where g: "mem_getcontents (cachefs cf) ?p = Inl e"
    by blast
  have first: "on_cache (b_open ?mem ?p mode) cf = (Inl e, cf)"
    using rm g by (simp add: on_cache_def mem_b_open_read)
  obtain r2 cf2 where src: "on_source (Call_open ?p ''rb'') (b_open src ?p ''rb'') cf = (r2, cf2)"
    by (cases "on_source (Call_open ?p ''rb'') (b_open src ?p ''rb'') cf")
  obtain r3 cf3 where new: "open_new_file ?mem ?p cf2 = (r3, cf3)"
    by (cases "open_new_file ?mem ?p cf2")
  from ok rm first src new obtain data nf where r2: "r2 = Inr data" and r3: "r3 = Inr nf"
    by (auto simp: CacheFS_open_def Let_def split: if_splits sum.splits)
  from src r2 have s: "b_open src ?p ''rb'' (wrapped_fs cf) = (Inr data, wrapped_fs cf2)"
    and calls2: "fs_calls cf2 = fs_calls cf @ [Call_open ?p ''rb'']"
    by (auto simp: on_source_eq intro: prod_eqI)
  from open_new_file_mem[OF new[unfolded r3]] obtain c3
    where cf3: "cf3 = cf2\<lparr>cachefs := c3\<rparr>" and empty: "map_of c3 ?p = Some (FileEntry [])"
      and d3: "mem_isdir c3 (dirname ?p)" and nd3: "\<not> mem_isdir c3 ?p"
    by blast
  let ?c4 = "AList.update ?p (FileEntry data) c3"
  let ?cf4 = "cf2\<lparr>cachefs := ?c4\<rparr>"
  have wr: "on_cache (b_write ?mem ?p data) cf3 = (Inr (), ?cf4)"
    using empty by (simp add: on_cache_def cf3 mem_backend_def mem_write_def updated_def)
  have e4: "map_of ?c4 ?p = Some (FileEntry data)" by (simp add: update_conv')
  have d4: "mem_isdir ?c4 (dirname ?p)" using d3 nd3 by (rule mem_isdir_update_file)
  have re: "on_cache (b_open ?mem ?p mode) ?cf4 = (Inr data, ?cf4)"
    using rm e4 by (simp add: on_cache_def mem_b_open_read mem_getcontents_file)
  from ok rm first src new r2 r3 wr re
  have "cf' = ?cf4" and "f = OpenFile (if mode = ''rb'' then Source else Cache) mode data"
    by (auto simp: CacheFS_open_def Let_def split: if_splits)
  with s calls2 e4 d4 show ?thesis by auto
qed

text \<open>
  C5, as the claim states it, fails for the mode \<open>rb\<close>: after copying the file into the
  cache, \<open>CacheFS.open\<close> rewinds and returns the file object it opened on the wrapped
  filesystem, not one of the cache.
\<close>

theorem CacheFS_read_of_rb_served_by_source:
  "CacheFS_open (mem_backend ResourceNotFoundError) (mem_backend ResourceNotFoundError) (\<lambda>p. p)
      ''/f'' ''rb'' \<lparr>wrapped_fs = [(''/f'', FileEntry ''abc'')], cachefs = [], fs_calls = []\<rparr>
     = (Inr (OpenFile Source ''rb'' ''abc''),
        \<lparr>wrapped_fs = [(''/f'', FileEntry ''abc'')], cachefs = [(''/f'', FileEntry ''abc'')],
         fs_calls = [Call_open ''/f'' ''rb'']\<rparr>)"
  by code_simp

text \<open>
  C5, amended. Let a read-mode \<open>open\<close> of \<open>P\<close> find no file for \<open>P\<close> in the cache and
  return a file object. Then the wrapped filesystem was called exactly once, by
  \<open>open(P, 'rb')\<close>, whose whole contents are now the cache's file for \<open>P\<close>, in a directory
  that exists in the cache; the returned file object has these contents, and it is the
  cache's, except for the mode \<open>rb\<close>, where it is the wrapped filesystem's. Every further
  read-mode \<open>open\<close> of \<open>P\<close> returns the cache's file object with these contents and leaves
  the wrapper as it was: no further call of the wrapped filesystem.
\<close>

theorem CacheFS_read_through:
  assumes "\<not> write_mode mode"
    and "\<not> mem_isfile (cachefs cf) (normpath P)"
    and "CacheFS_open src (mem_backend ResourceNotFoundError) normpath P mode cf = (Inr f, cf')"
  shows "\<exists>data. b_open src (normpath P) ''rb'' (wrapped_fs cf) = (Inr data, wrapped_fs cf')
          \<and> fs_calls cf' = fs_calls cf @ [Call_open (normpath P) ''rb'']
          \<and> map_of (cachefs cf') (normpath P) = Some (FileEntry data)
          \<and> mem_isdir (cachefs cf') (dirname (normpath P))
          \<and> f = OpenFile (if mode = ''rb'' then Source else Cache) mode data
          \<and> (\<forall>mode'. \<not> write_mode mode' \<longrightarrow>
                CacheFS_open src (mem_backend ResourceNotFoundError) normpath P mode' cf'
                  = (Inr (OpenFile Cache mode' data), cf'))"
proof -
  from CacheFS_open_miss[OF assms] obtain data
    where a: "b_open src (normpath P) ''rb'' (wrapped_fs cf) = (Inr data, wrapped_fs cf')"
      "fs_calls cf' = fs_calls cf @ [Call_open (normpath P) ''rb'']"
      "map_of (cachefs cf') (normpath P) = Some (FileEntry data)"
      "mem_isdir (cachefs cf') (dirname (normpath P))"
      "f = OpenFile (if mode = ''rb'' then Source else Cache) mode data"
    by blast
  have "\<forall>mode'. \<not> write_mode mode' \<longrightarrow>
                CacheFS_open src (mem_backend ResourceNotFoundError) normpath P mode' cf'
                  = (Inr (OpenFile Cache mode' data), cf')"
    using a(3) by (simp add: CacheFS_open_hit)
  with a show ?thesis by blast
qed

text \<open>An instance in text mode, the directory of the file missing in the cache.\<close>

theorem CacheFS_read_through_witness:
  "CacheFS_open (mem_backend ResourceNotFoundError) (mem_backend ResourceNotFoundError) (\<lambda>p. p)
      ''/d/f'' ''r''
      \<lparr>wrapped_fs = [(''/d'', DirEntry), (''/d/f'', FileEntry ''abc'')], cachefs = [], fs_calls = []\<rparr>
     = (Inr (OpenFile Cache ''r'' ''abc''),
        \<lparr>wrapped_fs = [(''/d'', DirEntry), (''/d/f'', FileEntry ''abc'')],
         cachefs = [(''/d'', DirEntry), (''/d/f'', FileEntry ''abc'')],
         fs_calls = [Call_open ''/d/f'' ''rb'']\<rparr>)
   \<and> CacheFS_open (mem_backend ResourceNotFoundError) (mem_backend ResourceNotFoundError) (\<lambda>p. p)
      ''/d/f'' ''r''
      \<lparr>wrapped_fs = [(''/d'', DirEntry), (''/d/f'', FileEntry ''abc'')],
       cachefs = [(''/d'', DirEntry), (''/d/f'', FileEntry ''abc'')],
       fs_calls = [Call_open ''/d/f'' ''rb'']\<rparr>
     = (Inr (OpenFile Cache ''r'' ''abc''),
        \<lparr>wrapped_fs = [(''/d'', DirEntry), (''/d/f'', FileEntry ''abc'')],
         cachefs = [(''/d'', DirEntry), (''/d/f'', FileEntry ''abc'')],
         fs_calls = [Call_open ''/d/f'' ''rb'']\<rparr>)"
proof -
  let ?mem = "mem_backend ResourceNotFoundError"
  let ?S = "[(''/d'', DirEntry), (''/d/f'', FileEntry ''abc'')]"
  let ?cf = "\<lparr>wrapped_fs = ?S, cachefs = [] :: memfs, fs_calls = []\<rparr>"
  let ?cf' = "\<lparr>wrapped_fs = ?S, cachefs = ?S, fs_calls = [Call_open ''/d/f'' ''rb'']\<rparr>"
  have rm: "\<not> write_mode ''r''" by (simp add: write_mode_def)
  have miss: "\<not> mem_isfile (cachefs ?cf) ''/d/f''" by (simp add: mem_isfile_def)
  have run: "CacheFS_open ?mem ?mem (\<lambda>p. p) ''/d/f'' ''r'' ?cf = (Inr (OpenFile Cache ''r'' ''abc''), ?cf')"
    by code_simp
  from CacheFS_read_through[of "''r''" ?cf "\<lambda>p. p" "''/d/f''" ?mem, OF rm miss run]
  obtain data where f: "OpenFile Cache ''r'' ''abc'' = OpenFile (if ''r'' = ''rb'' then Source else Cache) ''r'' data"
    and again: "\<forall>mode'. \<not> write_mode mode' \<longrightarrow>
                CacheFS_open ?mem ?mem (\<lambda>p. p) ''/d/f'' mode' ?cf' = (Inr (OpenFile Cache mode' data), ?cf')"
    by blast
  from f have "data = ''abc''" by simp
  with again rm have "CacheFS_open ?mem ?mem (\<lambda>p. p) ''/d/f'' ''r'' ?cf' = (Inr (OpenFile Cache ''r'' ''abc''), ?cf')"
    by blast
  with run show ?thesis by (intro conjI)
qed

lemma purge_mem:
  assumes "purge (mem_backend missing) p cf = (r, cf')"
  shows "\<not> mem_isfile (cachefs cf') p
       \<and> wrapped_fs cf' = wrapped_fs cf \<and> fs_calls cf' = fs_calls cf
       \<and> (\<not> mem_isdir (cachefs cf) p \<longrightarrow> r = Inr ())
       \<and> (map_of (cachefs cf) p = None \<longrightarrow> cachefs cf' = cachefs cf)"
proof (cases "mem_remove (cachefs cf) p")
  case (Inl e)
  then have rem: "on_cache (b_remove (mem_backend missing) p) cf = (Inl e, cf)"
    by (simp add: on_cache_def mem_backend_def updated_def)
  from Inl have nf: "\<not> mem_isfile (cachefs cf) p"
    by (auto simp: mem_remove_def mem_isfile_def split: option.splits entry.splits)
  from Inl have e: "\<not> mem_isdir (cachefs cf) p \<longrightarrow> e = ResourceNotFoundError"
    by (auto simp: mem_remove_def mem_isdir_def split: option.splits entry.splits if_splits)
  from assms rem have "cf' = cf" by (auto simp: purge_def split: if_splits)
  with assms rem nf e show ?thesis by (auto simp: purge_def split: if_splits)
next
  case (Inr c')
  then have rem: "on_cache (b_remove (mem_backend missing) p) cf = (Inr (), cf\<lparr>cachefs := c'\<rparr>)"
    by (simp add: on_cache_def mem_backend_def updated_def)
  from Inr have c': "c' = AList.delete p (cachefs cf)" and was: "map_of (cachefs cf) p \<noteq> None"
    by (auto simp: mem_remove_def split: option.splits entry.splits if_splits)
  have "\<not> mem_isfile c' p" by (simp add: c' mem_isfile_def delete_conv')
  with assms rem was show ?thesis by (auto simp: purge_def)
qed

text \<open>
  C6. Whatever \<open>setcontents\<close> of the wrapped filesystem does with the write, exception or
  not, \<open>CacheFS.setcontents\<close> calls it exactly once and afterwards the cache holds no file
  for the path. Purging a path the cache has no entry for changes nothing in the cache and
  raises nothing: the outcome is the outcome of the write (more generally whenever the cache
  entry is not a directory). Consequently a read-mode \<open>open\<close> after the call that returns a
  file object has called the wrapped filesystem and returns what that call read, never
  contents cached before the write.
\<close>

theorem CacheFS_setcontents_purges:
  assumes "CacheFS_setcontents src (mem_backend ResourceNotFoundError) normpath P data cf = (r, cf')"
  shows "wrapped_fs cf' = snd (b_setcontents src (normpath P) data (wrapped_fs cf))
       \<and> fs_calls cf' = fs_calls cf @ [Call_setcontents (normpath P) data]
       \<and> \<not> mem_isfile (cachefs cf') (normpath P)
       \<and> (\<not> mem_isdir (cachefs cf) (normpath P)
            \<longrightarrow> r = fst (b_setcontents src (normpath P) data (wrapped_fs cf)))
       \<and> (map_of (cachefs cf) (normpath P) = None \<longrightarrow> cachefs cf' = cachefs cf)
       \<and> (\<forall>mode f cf''. \<not> write_mode mode
              \<and> CacheFS_open src (mem_backend ResourceNotFoundError) normpath P mode cf' = (Inr f, cf'')
            \<longrightarrow> fs_calls cf'' = fs_calls cf' @ [Call_open (normpath P) ''rb'']
                \<and> (\<exists>fresh. b_open src (normpath P) ''rb'' (wrapped_fs cf') = (Inr fresh, wrapped_fs cf'')
                      \<and> f = OpenFile (if mode = ''rb'' then Source else Cache) mode fresh))"
proof -
  let ?mem = "mem_backend ResourceNotFoundError"
  let ?p = "normpath P"
  obtain r1 cf1
    where w: "on_source (Call_setcontents ?p data) (b_setcontents src ?p data) cf = (r1, cf1)"
    by (cases "on_source (Call_setcontents ?p data) (b_setcontents src ?p data) cf")
  then have r1: "r1 = fst (b_setcontents src ?p data (wrapped_fs cf))"
    and s1: "wrapped_fs cf1 = snd (b_setcontents src ?p data (wrapped_fs cf))"
    and calls1: "fs_calls cf1 = fs_calls cf @ [Call_setcontents ?p data]"
    and c1: "cachefs cf1 = cachefs cf"
    by (auto simp: on_source_eq)
  obtain r2 cf2 where pu: "purge ?mem ?p cf1 = (r2, cf2)" by (cases "purge ?mem ?p cf1")
  note pm = purge_mem[OF pu]
  from assms w pu have cf': "cf' = cf2" and r: "r2 = Inr () \<longrightarrow> r = r1"
    by (auto simp: CacheFS_setcontents_def Let_def split: sum.splits)
  have nofile: "\<not> mem_isfile (cachefs cf') ?p" using pm cf' by simp
  have later: "\<forall>mode f cf''. \<not> write_mode mode
              \<and> CacheFS_open src ?mem normpath P mode cf' = (Inr f, cf'')
            \<longrightarrow> fs_calls cf'' = fs_calls cf' @ [Call_open ?p ''rb'']
                \<and> (\<exists>fresh. b_open src ?p ''rb'' (wrapped_fs cf') = (Inr fresh, wrapped_fs cf'')
                      \<and> f = OpenFile (if mode = ''rb'' then Source else Cache) mode fresh)"
  proof (intro allI impI)
    fix mode f cf''
    assume a: "\<not> write_mode mode \<and> CacheFS_open src ?mem normpath P mode cf' = (Inr f, cf'')"
    from CacheFS_open_miss[OF conjunct1[OF a] nofile conjunct2[OF a]]
    show "fs_calls cf'' = fs_calls cf' @ [Call_open ?p ''rb'']
                \<and> (\<exists>fresh. b_open src ?p ''rb'' (wrapped_fs cf') = (Inr fresh, wrapped_fs cf'')
                      \<and> f = OpenFile (if mode = ''rb'' then Source else Cache) mode fresh)"
      by blast
  qed
  from pm cf' r r1 s1 calls1 c1 nofile later show ?thesis by auto
qed

text \<open>An instance: the wrapped filesystem refuses the write, and the stale cache entry is
  gone all the same.\<close>

theorem CacheFS_setcontents_purges_witness:
  "CacheFS_setcontents (failing_backend UnsupportedError) (mem_backend ResourceNotFoundError) (\<lambda>p. p)
      ''/f'' ''new'' \<lparr>wrapped_fs = [], cachefs = [(''/f'', FileEntry ''stale'')], fs_calls = []\<rparr>
     = (Inl UnsupportedError,
        \<lparr>wrapped_fs = [''setcontents''], cachefs = [], fs_calls = [Call_setcontents ''/f'' ''new'']\<rparr>)
   \<and> \<not> mem_isfile (cachefs (snd (CacheFS_setcontents (failing_backend UnsupportedError)
          (mem_backend ResourceNotFoundError) (\<lambda>p. p) ''/f'' ''new''
          \<lparr>wrapped_fs = [], cachefs = [(''/f'', FileEntry ''stale'')], fs_calls = []\<rparr>))) ''/f''"
proof -
  let ?cf = "\<lparr>wrapped_fs = [] :: string list, cachefs = [(''/f'', FileEntry ''stale'')], fs_calls = []\<rparr>"
  let ?cf' = "\<lparr>wrapped_fs = [''setcontents''], cachefs = [] :: memfs,
               fs_calls = [Call_setcontents ''/f'' ''new'']\<rparr>"
  have run: "CacheFS_setcontents (failing_backend UnsupportedError) (mem_backend ResourceNotFoundError)
      (\<lambda>p. p) ''/f'' ''new'' ?cf = (Inl UnsupportedError, ?cf')"
    by code_simp
  from CacheFS_setcontents_purges[OF run] have "\<not> mem_isfile (cachefs ?cf') ''/f''" by blast
  with run show ?thesis by simp
qed

end
